theory Spec2Isabelle
  imports Main "HOL-Library.Sublist"
begin

section \<open>Data model\<close>

text \<open>
  The entities of \<^verbatim>\<open>types.ts\<close> that the availability engine
  (\<^verbatim>\<open>utils/slotLogic.ts\<close>) receives. A TypeScript \<^verbatim>\<open>number\<close> is an
  \<open>int\<close>: the engine reads the capacity of a table, the party size and the turnover in
  minutes, which are whole numbers, and no other number. \<^verbatim>\<open>string | null\<close> and
  optional fields are \<open>option\<close>s; the object \<^verbatim>\<open>{ [day: string]: OpeningHours }\<close>
  is a map. Field names that occur in several interfaces carry the interface's name.
\<close>

datatype ReservationStatus = PENDING | CONFIRMED | CANCELLED | NO_SHOW | PAID

record OpeningHours =
  "open" :: string
  close :: string

record Settings =
  turnoverMinutes :: int
  openingHours :: "string \<rightharpoonup> OpeningHours"
  timezone :: string
  overallCapacity :: "int option"
  noShowGraceMinutes :: "int option"

record SpecialOpeningHour =
  date_SpecialOpeningHour :: string
  isOpen :: bool
  openTime :: "string option"
  closeTime :: "string option"

record Table =
  id_Table :: string
  name_Table :: string
  capacity :: int
  sectionId_Table :: string
  isReady :: bool

record Reservation =
  id_Reservation :: string
  customerName :: string
  contact :: string
  date_Reservation :: string
  time_Reservation :: string
  covers_Reservation :: int
  tableId :: "string option"
  sectionId_Reservation :: string
  status :: ReservationStatus
  "notes" :: string
  createdAt :: string
  checkAmount :: "int option"
  tableName :: "string option"
  sectionName :: "string option"

record TimeSlot =
  time :: string
  availableTables :: "Table list"

datatype error = RangeError

section \<open>The JavaScript built-ins the engine calls\<close>

text \<open>
  A \<^verbatim>\<open>Date\<close> is its time value: milliseconds since the epoch, or \<open>None\<close> for
  the invalid date (time value NaN). Local time is UTC plus a fixed offset \<open>tz\<close>
  (milliseconds east of UTC), a parameter of every function that reads or writes local
  time; daylight-saving changes within the day are outside the model, and so are time
  values beyond the range of \<^verbatim>\<open>Date\<close>.
\<close>

definition msPerMinute :: int where "msPerMinute = 60000"
definition msPerHour :: int where "msPerHour = 3600000"
definition msPerDay :: int where "msPerDay = 86400000"

text \<open>\<^verbatim>\<open>String(n)\<close> for a natural number, and \<^verbatim>\<open>padStart\<close>.\<close>

fun showNat :: "nat \<Rightarrow> string" where
  "showNat n =
     (if n < 10 then [''0123456789'' ! n]
      else showNat (n div 10) @ [''0123456789'' ! (n mod 10)])"

declare showNat.simps [simp del]

definition padStart :: "nat \<Rightarrow> char \<Rightarrow> string \<Rightarrow> string" where
  "padStart n c s = replicate (n - length s) c @ s"

text \<open>\<^verbatim>\<open>s.split(c)\<close> for a one-character separator: never the empty list.\<close>

fun splitStr :: "char \<Rightarrow> string \<Rightarrow> string list" where
  "splitStr c [] = [[]]"
| "splitStr c (x # xs) =
     (if x = c then [] # splitStr c xs
      else (case splitStr c xs of
              [] \<Rightarrow> [[x]]
            | y # ys \<Rightarrow> (x # y) # ys))"

text \<open>
  \<^verbatim>\<open>Number(s)\<close> on the strings of decimal digits, which is what the fields of an
  "HH:MM" time are: the value of the digits, \<open>0\<close> for the empty string. Every other
  string is taken to NaN (\<open>None\<close>); the signs, blanks, fractions, exponents and
  radix prefixes that JavaScript also reads are outside the model.
\<close>

definition isDigit :: "char \<Rightarrow> bool" where
  "isDigit c = (c \<in> set ''0123456789'')"

definition digitValue :: "char \<Rightarrow> int" where
  "digitValue c = int (of_char c) - 48"

definition Number :: "string \<Rightarrow> int option" where
  "Number s =
     (if list_all isDigit s then Some (foldl (\<lambda>a c. 10 * a + digitValue c) 0 s)
      else None)"

text \<open>
  \<^verbatim>\<open>const [h, m] = s.split(':').map(Number)\<close>: the first two elements; a missing
  second element is \<^verbatim>\<open>undefined\<close>, which \<^verbatim>\<open>setHours\<close> converts to NaN.
\<close>

definition hoursMinutes :: "string \<Rightarrow> int option \<times> int option" where
  "hoursMinutes s =
     (case map Number (splitStr CHR '':'' s) of
        [] \<Rightarrow> (None, None)
      | [h] \<Rightarrow> (h, None)
      | h # m # _ \<Rightarrow> (h, m))"

text \<open>
  \<^verbatim>\<open>const d = new Date(date); d.setHours(h, m, 0, 0)\<close> for a valid \<open>date\<close>: the
  start of the local day of \<open>date\<close> plus \<open>h\<close> hours and \<open>m\<close> minutes; NaN when
  either is NaN.
\<close>

definition localMidnight :: "int \<Rightarrow> int \<Rightarrow> int" where
  "localMidnight tz t = ((t + tz) div msPerDay) * msPerDay - tz"

definition setHours :: "int \<Rightarrow> int \<Rightarrow> int option \<Rightarrow> int option \<Rightarrow> int option" where
  "setHours tz t h m =
     (case (h, m) of
        (Some hh, Some mm) \<Rightarrow> Some (localMidnight tz t + hh * msPerHour + mm * msPerMinute)
      | _ \<Rightarrow> None)"

definition getHours :: "int \<Rightarrow> int \<Rightarrow> nat" where
  "getHours tz t = nat (((t + tz) div msPerHour) mod 24)"

definition getMinutes :: "int \<Rightarrow> int \<Rightarrow> nat" where
  "getMinutes tz t = nat (((t + tz) div msPerMinute) mod 60)"

text \<open>
  The calendar date of a day number (days since 1970-01-01) in the proleptic Gregorian
  calendar, as year, month (1 to 12) and day of the month.
\<close>

definition civilFromDays :: "int \<Rightarrow> int \<times> int \<times> int" where
  "civilFromDays days =
     (let z = days + 719468;
          era = z div 146097;
          doe = z - era * 146097;
          yoe = (doe - doe div 1460 + doe div 36524 - doe div 146096) div 365;
          doy = doe - (365 * yoe + yoe div 4 - yoe div 100);
          mp = (5 * doy + 2) div 153;
          d = doy - (153 * mp + 2) div 5 + 1;
          m = (if mp < 10 then mp + 3 else mp - 9);
          y = yoe + era * 400 + (if m \<le> 2 then 1 else 0)
      in (y, m, d))"

definition showYear :: "int \<Rightarrow> string" where
  "showYear y =
     (if 0 \<le> y \<and> y \<le> 9999 then padStart 4 CHR ''0'' (showNat (nat y))
      else (if y < 0 then ''-'' else ''+'') @ padStart 6 CHR ''0'' (showNat (nat \<bar>y\<bar>)))"

text \<open>\<^verbatim>\<open>date.toISOString()\<close>: the UTC date and time; a RangeError on the invalid date.\<close>

definition toISOString :: "int option \<Rightarrow> error + string" where
  "toISOString date =
     (case date of
        None \<Rightarrow> Inl RangeError
      | Some t \<Rightarrow>
          (case civilFromDays (t div msPerDay) of
             (y, m, d) \<Rightarrow>
               Inr (showYear y @ ''-'' @ padStart 2 CHR ''0'' (showNat (nat m)) @ ''-''
                    @ padStart 2 CHR ''0'' (showNat (nat d)) @ ''T''
                    @ padStart 2 CHR ''0'' (showNat (nat ((t div msPerHour) mod 24))) @ '':''
                    @ padStart 2 CHR ''0'' (showNat (nat ((t div msPerMinute) mod 60))) @ '':''
                    @ padStart 2 CHR ''0'' (showNat (nat ((t div 1000) mod 60))) @ ''.''
                    @ padStart 3 CHR ''0'' (showNat (nat (t mod 1000))) @ ''Z'')))"

text \<open>
  \<^verbatim>\<open>getDayOfWeek\<close> of \<^verbatim>\<open>utils/time.ts\<close>: the English name of the local weekday,
  in lower case. Day 0 of the epoch was a Thursday.
\<close>

definition getDayOfWeek :: "int \<Rightarrow> int \<Rightarrow> string" where
  "getDayOfWeek tz t =
     [''sunday'', ''monday'', ''tuesday'', ''wednesday'', ''thursday'', ''friday'', ''saturday'']
       ! nat (((t + tz) div msPerDay + 4) mod 7)"

section \<open>The availability engine\<close>

text \<open>Truthiness of a \<^verbatim>\<open>string | null\<close>: neither null nor the empty string.\<close>

definition truthy :: "string option \<Rightarrow> bool" where
  "truthy s = (case s of None \<Rightarrow> False | Some x \<Rightarrow> x \<noteq> [])"

text \<open>\<^verbatim>\<open>date.toISOString().split('T')[0]\<close> (line 34).\<close>

definition dateStringOf :: "int option \<Rightarrow> error + string" where
  "dateStringOf date =
     (case toISOString date of
        Inl e \<Rightarrow> Inl e
      | Inr isoString \<Rightarrow>
          (case splitStr CHR ''T'' isoString of
             [] \<Rightarrow> Inr []
           | x # _ \<Rightarrow> Inr x))"

text \<open>
  The three places that turn an "HH:MM" string into a \<^verbatim>\<open>Date\<close> on the day of
  \<open>date\<close> (lines 60 to 67 and 80 to 82):
  \<^verbatim>\<open>const [h, m] = s.split(':').map(Number); const t = new Date(date); t.setHours(h, m, 0, 0)\<close>.
\<close>

definition atTime :: "int \<Rightarrow> int \<Rightarrow> string \<Rightarrow> int option" where
  "atTime tz date s = (case hoursMinutes s of (h, m) \<Rightarrow> setHours tz date h m)"

text \<open>
  The predicate passed to \<^verbatim>\<open>some\<close> (lines 79 to 92): does the reservation's
  occupancy window overlap the one of a booking that starts at \<open>currentTime\<close>?
  A comparison with NaN is false.
\<close>

definition overlapsReservation :: "int \<Rightarrow> int \<Rightarrow> Settings \<Rightarrow> int \<Rightarrow> Reservation \<Rightarrow> bool" where
  "overlapsReservation tz date settings currentTime res =
     (case atTime tz date (time_Reservation res) of
        None \<Rightarrow> False
      | Some resStartTime \<Rightarrow>
          (let resEndTime = resStartTime + turnoverMinutes settings * 60000;
               newBookingStartTime = currentTime;
               newBookingEndTime = newBookingStartTime + turnoverMinutes settings * 60000
           in newBookingStartTime < resEndTime \<and> newBookingEndTime > resStartTime))"

text \<open>The filter of lines 75 to 93: the eligible tables that are free at \<open>currentTime\<close>.\<close>

definition availableTablesForSlot ::
  "int \<Rightarrow> int \<Rightarrow> Settings \<Rightarrow> Reservation list \<Rightarrow> Table list \<Rightarrow> int \<Rightarrow> Table list" where
  "availableTablesForSlot tz date settings reservations eligible currentTime =
     filter (\<lambda>table.
        (let conflictingReservations =
               filter (\<lambda>r. tableId r = Some (id_Table table)) reservations
         in \<not> list_ex (overlapsReservation tz date settings currentTime) conflictingReservations))
       eligible"

definition timeStr :: "int \<Rightarrow> int \<Rightarrow> string" where
  "timeStr tz currentTime =
     padStart 2 CHR ''0'' (showNat (getHours tz currentTime)) @ '':''
     @ padStart 2 CHR ''0'' (showNat (getMinutes tz currentTime))"

text \<open>The \<^verbatim>\<open>while\<close> loop of lines 71 to 104, with the slots collected so far.\<close>

function slotLoop ::
  "int \<Rightarrow> int \<Rightarrow> Settings \<Rightarrow> Reservation list \<Rightarrow> Table list \<Rightarrow> int \<Rightarrow> int
   \<Rightarrow> TimeSlot list \<Rightarrow> TimeSlot list" where
  "slotLoop tz date settings reservations eligible closingTime currentTime availableSlots =
     (if currentTime < closingTime then
        (let tabs = availableTablesForSlot tz date settings reservations eligible currentTime
         in slotLoop tz date settings reservations eligible closingTime
              (currentTime + 15 * 60000)
              (if length tabs > 0
               then availableSlots @ [\<lparr>time = timeStr tz currentTime, availableTables = tabs\<rparr>]
               else availableSlots))
      else availableSlots)"
  by pat_completeness auto
termination
  by (relation "measure (\<lambda>(tz, date, settings, reservations, eligible, closingTime,
                            currentTime, availableSlots). nat (closingTime - currentTime))")
     auto

declare slotLoop.simps [simp del]

text \<open>Line 54: the tables large enough for the party and ready.\<close>

definition eligibleTables :: "int \<Rightarrow> Table list \<Rightarrow> Table list" where
  "eligibleTables covers tables = filter (\<lambda>t. capacity t \<ge> covers \<and> isReady t) tables"

text \<open>
  Lines 50 to 107: from the effective opening hours (\<open>None\<close> is \<^verbatim>\<open>undefined\<close>) to
  the result. An invalid opening or closing time makes the loop condition false.
\<close>

definition slotsForHours ::
  "int \<Rightarrow> int \<Rightarrow> int \<Rightarrow> Settings \<Rightarrow> Reservation list \<Rightarrow> Table list
   \<Rightarrow> OpeningHours option \<Rightarrow> TimeSlot list" where
  "slotsForHours tz date covers settings reservations tables effectiveOpeningHours =
     (case effectiveOpeningHours of
        None \<Rightarrow> []
      | Some hours \<Rightarrow>
          if open hours = [] then []
          else if length (eligibleTables covers tables) = 0 then []
          else
            (case (atTime tz date (open hours), atTime tz date (close hours)) of
               (Some openingTime, Some closingTime) \<Rightarrow>
                 slotLoop tz date settings reservations (eligibleTables covers tables)
                   closingTime openingTime []
             | _ \<Rightarrow> []))"

text \<open>
  \<^verbatim>\<open>calculateAvailableSlots\<close>, lines 25 to 108. The first parameter is the local
  offset of the runtime; \<^verbatim>\<open>toISOString\<close> raises on the invalid date.
\<close>

definition calculateAvailableSlots ::
  "int \<Rightarrow> int option \<Rightarrow> int \<Rightarrow> Settings \<Rightarrow> Reservation list \<Rightarrow> Table list
   \<Rightarrow> SpecialOpeningHour list \<Rightarrow> error + TimeSlot list" where
  "calculateAvailableSlots tz date covers settings reservations tables specialOpeningHours =
     (case (dateStringOf date, date) of
        (Inr dateString, Some d) \<Rightarrow>
          (case find (\<lambda>h. date_SpecialOpeningHour h = dateString) specialOpeningHours of
             Some specialHour \<Rightarrow>
               if \<not> isOpen specialHour \<or> \<not> truthy (openTime specialHour)
                  \<or> \<not> truthy (closeTime specialHour)
               then Inr []
               else
                 (case (openTime specialHour, closeTime specialHour) of
                    (Some ot, Some ct) \<Rightarrow>
                      Inr (slotsForHours tz d covers settings reservations tables
                             (Some \<lparr>open = ot, close = ct\<rparr>))
                  | _ \<Rightarrow> Inr [])
           | None \<Rightarrow>
               Inr (slotsForHours tz d covers settings reservations tables
                      (openingHours settings (getDayOfWeek tz d))))
      | _ \<Rightarrow> Inl RangeError)"

section \<open>The loop as an enumeration\<close>

text \<open>
  The start times the loop visits: from the opening time in steps of 15 minutes, while
  before the closing time. \<open>slotAt\<close> is the body of the loop at one start time: the
  slot it appends, if any.
\<close>

function candidateTimes :: "int \<Rightarrow> int \<Rightarrow> int list" where
  "candidateTimes openingTime closingTime =
     (if openingTime < closingTime
      then openingTime # candidateTimes (openingTime + 15 * 60000) closingTime
      else [])"
  by pat_completeness auto
termination
  by (relation "measure (\<lambda>(openingTime, closingTime). nat (closingTime - openingTime))") auto

declare candidateTimes.simps [simp del]

definition slotAt ::
  "int \<Rightarrow> int \<Rightarrow> Settings \<Rightarrow> Reservation list \<Rightarrow> Table list \<Rightarrow> int \<Rightarrow> TimeSlot option" where
  "slotAt tz date settings reservations eligible currentTime =
     (let tabs = availableTablesForSlot tz date settings reservations eligible currentTime
      in if tabs = [] then None else Some \<lparr>time = timeStr tz currentTime, availableTables = tabs\<rparr>)"

section \<open>Occupancy windows\<close>

text \<open>
  The specification's reading of a conflict: a booking that starts at \<open>start\<close> occupies
  its table during the half-open window from \<open>start\<close> to \<open>start\<close> plus the turnover,
  in milliseconds. A table has no conflict at a slot when the slot's window meets the window
  of no reservation of that table (a reservation whose time is not a valid date has no
  window).
\<close>

definition occupancyWindow :: "Settings \<Rightarrow> int \<Rightarrow> int set" where
  "occupancyWindow settings start = {start ..< start + turnoverMinutes settings * 60000}"

definition hasNoConflict :: "int \<Rightarrow> int \<Rightarrow> Settings \<Rightarrow> Reservation list \<Rightarrow> int \<Rightarrow> Table \<Rightarrow> bool" where
  "hasNoConflict tz date settings reservations slotStart table =
     (\<forall>r\<in>set reservations. tableId r = Some (id_Table table) \<longrightarrow>
        (case atTime tz date (time_Reservation r) of
           None \<Rightarrow> True
         | Some resStart \<Rightarrow>
             occupancyWindow settings slotStart \<inter> occupancyWindow settings resStart = {}))"

section \<open>Sample data\<close>

text \<open>
  Monday 2024-01-15, 00:00 UTC; a ready table for four; the settings of Scenario A of the
  specification; the offset of a runtime at UTC+5:30 and the start of Monday 2024-01-15
  there (2024-01-14, 18:30 UTC), which is the \<^verbatim>\<open>Date\<close> the reservation form passes
  for that day (\<^verbatim>\<open>new Date(formData.date + 'T00:00:00')\<close>); a reservation of
  the table at a given time.
\<close>

definition monday :: int where "monday = 1705276800000"
definition table1 :: Table where
  "table1 = \<lparr>id_Table = ''t1'', name_Table = ''Table 1'', capacity = 4, sectionId_Table = ''sec1'', isReady = True\<rparr>"
definition settingsA :: Settings where
  "settingsA = \<lparr>turnoverMinutes = 90,
     openingHours = [''monday'' \<mapsto> \<lparr>open = ''17:00'', close = ''19:00''\<rparr>],
     timezone = ''UTC'', overallCapacity = None, noShowGraceMinutes = None\<rparr>"
definition kolkataOffset :: int where "kolkataOffset = 19800000"
definition mondayInKolkata :: int where "mondayInKolkata = 1705257000000"
definition bookingAt :: "string \<Rightarrow> Reservation" where
  "bookingAt s = \<lparr>id_Reservation = ''res1'', customerName = ''Ada'', contact = ''555-0100'',
     date_Reservation = ''2024-01-15'', time_Reservation = s, covers_Reservation = 2,
     tableId = Some ''t1'', sectionId_Reservation = ''sec1'', status = CONFIRMED, notes = [],
     createdAt = ''2024-01-01T00:00:00.000Z'', checkAmount = None, tableName = None,
     sectionName = None\<rparr>"

section \<open>The engine on a store of objects\<close>

text \<open>
  For the claim that the engine changes none of its inputs, the same code once more, on a
  store: a list of objects, a reference being an index. The engine receives references
  to its \<^verbatim>\<open>Date\<close>, to the settings and to the three arrays, and reads them where the
  source does. \<^verbatim>\<open>new Date(...)\<close> appends an object, and \<^verbatim>\<open>setHours\<close>, the one
  mutating method the source calls on an object that is not a fresh local array, writes
  the object it is called on. The arrays that \<^verbatim>\<open>filter\<close> returns and the array
  \<^verbatim>\<open>availableSlots\<close> that \<^verbatim>\<open>push\<close> extends are created by the call and stay values.
  The accessors return \<open>None\<close> for a reference of the wrong kind, which the parameter
  types exclude.
\<close>

datatype obj =
    DateObject "int option"
  | SettingsObject Settings
  | ReservationArray "Reservation list"
  | TableArray "Table list"
  | SpecialOpeningHourArray "SpecialOpeningHour list"

type_synonym store = "obj list"
type_synonym ref = nat

definition getTime :: "store \<Rightarrow> ref \<Rightarrow> int option" where
  "getTime st r =
     (if r < length st then (case st ! r of DateObject v \<Rightarrow> v | _ \<Rightarrow> None) else None)"

definition settingsAt :: "store \<Rightarrow> ref \<Rightarrow> Settings option" where
  "settingsAt st r =
     (if r < length st then (case st ! r of SettingsObject s \<Rightarrow> Some s | _ \<Rightarrow> None) else None)"

definition reservationsAt :: "store \<Rightarrow> ref \<Rightarrow> Reservation list option" where
  "reservationsAt st r =
     (if r < length st then (case st ! r of ReservationArray rs \<Rightarrow> Some rs | _ \<Rightarrow> None)
      else None)"

definition tablesAt :: "store \<Rightarrow> ref \<Rightarrow> Table list option" where
  "tablesAt st r =
     (if r < length st then (case st ! r of TableArray ts \<Rightarrow> Some ts | _ \<Rightarrow> None) else None)"

definition specialOpeningHoursAt :: "store \<Rightarrow> ref \<Rightarrow> SpecialOpeningHour list option" where
  "specialOpeningHoursAt st r =
     (if r < length st
      then (case st ! r of SpecialOpeningHourArray hs \<Rightarrow> Some hs | _ \<Rightarrow> None)
      else None)"

definition newDate :: "store \<Rightarrow> int option \<Rightarrow> ref \<times> store" where
  "newDate st v = (length st, st @ [DateObject v])"

definition setHours_st :: "int \<Rightarrow> store \<Rightarrow> ref \<Rightarrow> int option \<Rightarrow> int option \<Rightarrow> store" where
  "setHours_st tz st r h m =
     (if r < length st
      then st[r := DateObject (case getTime st r of None \<Rightarrow> None | Some t \<Rightarrow> setHours tz t h m)]
      else st)"

definition plusMs :: "int option \<Rightarrow> int \<Rightarrow> int option" where
  "plusMs v n = (case v of None \<Rightarrow> None | Some t \<Rightarrow> Some (t + n))"

definition lessDate :: "int option \<Rightarrow> int option \<Rightarrow> bool" where
  "lessDate a b = (case (a, b) of (Some x, Some y) \<Rightarrow> x < y | _ \<Rightarrow> False)"

definition turnoverMinutesAt :: "store \<Rightarrow> ref \<Rightarrow> int" where
  "turnoverMinutesAt st r = (case settingsAt st r of Some s \<Rightarrow> turnoverMinutes s | None \<Rightarrow> 0)"

text \<open>Lines 79 to 92: three \<^verbatim>\<open>Date\<close> objects are created, the first is then set.\<close>

definition overlapsReservation_st ::
  "int \<Rightarrow> ref \<Rightarrow> ref \<Rightarrow> ref \<Rightarrow> store \<Rightarrow> Reservation \<Rightarrow> bool \<times> store" where
  "overlapsReservation_st tz date settings currentTime st res =
     (let (resStartTime, st1) = newDate st (getTime st date);
          (resH, resM) = hoursMinutes (time_Reservation res);
          st2 = setHours_st tz st1 resStartTime resH resM;
          (resEndTime, st3) =
             newDate st2 (plusMs (getTime st2 resStartTime) (turnoverMinutesAt st2 settings * 60000));
          newBookingStartTime = currentTime;
          (newBookingEndTime, st4) =
             newDate st3
               (plusMs (getTime st3 newBookingStartTime) (turnoverMinutesAt st3 settings * 60000))
      in (lessDate (getTime st4 newBookingStartTime) (getTime st4 resEndTime)
          \<and> lessDate (getTime st4 resStartTime) (getTime st4 newBookingEndTime), st4))"

text \<open>\<^verbatim>\<open>some\<close> and \<^verbatim>\<open>filter\<close> with a callback that changes the store.\<close>

fun some_st :: "(store \<Rightarrow> 'a \<Rightarrow> bool \<times> store) \<Rightarrow> store \<Rightarrow> 'a list \<Rightarrow> bool \<times> store" where
  "some_st p st [] = (False, st)"
| "some_st p st (x # xs) =
     (let (b, st') = p st x in if b then (True, st') else some_st p st' xs)"

fun filter_st :: "(store \<Rightarrow> 'a \<Rightarrow> bool \<times> store) \<Rightarrow> store \<Rightarrow> 'a list \<Rightarrow> 'a list \<times> store" where
  "filter_st p st [] = ([], st)"
| "filter_st p st (x # xs) =
     (let (b, st') = p st x;
          (ys, st'') = filter_st p st' xs
      in (if b then x # ys else ys, st''))"

definition availableTablesForSlot_st ::
  "int \<Rightarrow> ref \<Rightarrow> ref \<Rightarrow> ref \<Rightarrow> Table list \<Rightarrow> ref \<Rightarrow> store \<Rightarrow> Table list \<times> store" where
  "availableTablesForSlot_st tz date settings reservations eligible currentTime st =
     filter_st (\<lambda>st table.
        (let conflictingReservations =
               filter (\<lambda>r. tableId r = Some (id_Table table))
                 (case reservationsAt st reservations of Some rs \<Rightarrow> rs | None \<Rightarrow> []);
             (b, st') = some_st (overlapsReservation_st tz date settings currentTime) st
                          conflictingReservations
         in (\<not> b, st')))
       st eligible"

text \<open>Line 72; \<^verbatim>\<open>getHours\<close> and \<^verbatim>\<open>getMinutes\<close> of the invalid date are NaN.\<close>

definition timeStr_st :: "int \<Rightarrow> store \<Rightarrow> ref \<Rightarrow> string" where
  "timeStr_st tz st currentTime =
     (case getTime st currentTime of Some t \<Rightarrow> timeStr tz t | None \<Rightarrow> ''NaN:NaN'')"

text \<open>
  The loop: \<open>currentTime\<close> first refers to the object \<open>openingTime\<close> and then to a new
  object in each round.
\<close>

function slotLoop_st ::
  "int \<Rightarrow> ref \<Rightarrow> ref \<Rightarrow> ref \<Rightarrow> Table list \<Rightarrow> ref \<Rightarrow> ref \<Rightarrow> TimeSlot list \<Rightarrow> store
   \<Rightarrow> TimeSlot list \<times> store" where
  "slotLoop_st tz date settings reservations eligible closingTime currentTime availableSlots st =
     (if lessDate (getTime st currentTime) (getTime st closingTime) then
        (let found = availableTablesForSlot_st tz date settings reservations eligible currentTime st;
             next = newDate (snd found) (plusMs (getTime (snd found) currentTime) (15 * 60000))
         in slotLoop_st tz date settings reservations eligible closingTime (fst next)
              (if length (fst found) > 0
               then availableSlots @
                      [\<lparr>time = timeStr_st tz st currentTime, availableTables = fst found\<rparr>]
               else availableSlots)
              (snd next))
      else (availableSlots, st))"
  by pat_completeness auto
termination
proof (relation "measure (\<lambda>(tz, date, settings, reservations, eligible, closingTime, currentTime,
                            availableSlots, st).
                   case (getTime st closingTime, getTime st currentTime) of
                     (Some c, Some t) \<Rightarrow> nat (c - t)
                   | _ \<Rightarrow> 0)", goal_cases)
  case 1
  show ?case by simp
next
  case (2 tz date settings reservations eligible closingTime currentTime availableSlots st found nxt)
  have overlaps: "prefix s (snd (overlapsReservation_st tz date settings currentTime s res))"
    for s res
    by (simp add: overlapsReservation_st_def newDate_def setHours_st_def Let_def
             split: prod.splits)
  have some: "prefix s (snd (some_st (overlapsReservation_st tz date settings currentTime) s rs))"
    for s rs
  proof (induction rs arbitrary: s)
    case Nil
    show ?case by simp
  next
    case (Cons r rs)
    show ?case
      using overlaps [of s r]
            Cons [of "snd (overlapsReservation_st tz date settings currentTime s r)"]
      by (auto simp: Let_def split: prod.splits intro: prefix_order.trans)
  qed
  have filt: "prefix s (snd (filter_st (\<lambda>st table.
        (let conflictingReservations =
               filter (\<lambda>r. tableId r = Some (id_Table table))
                 (case reservationsAt st reservations of Some rs \<Rightarrow> rs | None \<Rightarrow> []);
             (b, st') = some_st (overlapsReservation_st tz date settings currentTime) st
                          conflictingReservations
         in (\<not> b, st'))) s ts))"
    for s ts
  proof (induction ts arbitrary: s)
    case Nil
    show ?case by simp
  next
    case (Cons t ts)
    let ?rs = "filter (\<lambda>r. tableId r = Some (id_Table t))
                 (case reservationsAt s reservations of Some rs \<Rightarrow> rs | None \<Rightarrow> [])"
    let ?s' = "snd (some_st (overlapsReservation_st tz date settings currentTime) s ?rs)"
    show ?case
      using some [of s ?rs] Cons [of ?s']
      by (auto simp: Let_def split: prod.splits intro: prefix_order.trans)
  qed
  from 2(1) obtain c t where c: "getTime st closingTime = Some c"
    and t: "getTime st currentTime = Some t" and lt: "t < c"
    by (auto simp: lessDate_def split: option.splits)
  from c have cl: "closingTime < length st"
    by (simp add: getTime_def split: if_splits)
  from t have tl: "currentTime < length st"
    by (simp add: getTime_def split: if_splits)
  from filt [of st eligible] have pre: "prefix st (snd found)"
    unfolding 2(2) availableTablesForSlot_st_def .
  then obtain zs where zs: "snd found = st @ zs"
    by (auto simp: prefix_def)
  have c': "getTime (snd nxt) closingTime = Some c"
    using c cl unfolding 2(3) zs by (simp add: newDate_def getTime_def nth_append)
  have t': "getTime (snd nxt) (fst nxt) = Some (t + 15 * 60000)"
    using t tl unfolding 2(3) zs by (simp add: newDate_def getTime_def nth_append plusMs_def)
  from c t c' t' lt show ?case by simp
qed

declare slotLoop_st.simps [simp del]

text \<open>Lines 50 to 107 and lines 25 to 108 on the store.\<close>

definition slotsForHours_st ::
  "int \<Rightarrow> ref \<Rightarrow> int \<Rightarrow> ref \<Rightarrow> ref \<Rightarrow> ref \<Rightarrow> OpeningHours option \<Rightarrow> store
   \<Rightarrow> TimeSlot list \<times> store" where
  "slotsForHours_st tz date covers settings reservations tables effectiveOpeningHours st =
     (case effectiveOpeningHours of
        None \<Rightarrow> ([], st)
      | Some hours \<Rightarrow>
          if open hours = [] then ([], st)
          else
            (let eligible =
                   eligibleTables covers (case tablesAt st tables of Some ts \<Rightarrow> ts | None \<Rightarrow> [])
             in if length eligible = 0 then ([], st)
                else
                  (let (startH, startM) = hoursMinutes (open hours);
                       (endH, endM) = hoursMinutes (close hours);
                       (openingTime, st1) = newDate st (getTime st date);
                       st2 = setHours_st tz st1 openingTime startH startM;
                       (closingTime, st3) = newDate st2 (getTime st2 date);
                       st4 = setHours_st tz st3 closingTime endH endM;
                       currentTime = openingTime
                   in slotLoop_st tz date settings reservations eligible closingTime
                        currentTime [] st4)))"

definition calculateAvailableSlots_st ::
  "int \<Rightarrow> ref \<Rightarrow> int \<Rightarrow> ref \<Rightarrow> ref \<Rightarrow> ref \<Rightarrow> ref \<Rightarrow> store
   \<Rightarrow> (error + TimeSlot list) \<times> store" where
  "calculateAvailableSlots_st tz date covers settings reservations tables specialOpeningHours st =
     (case (dateStringOf (getTime st date), getTime st date) of
        (Inr dateString, Some d) \<Rightarrow>
          (case find (\<lambda>h. date_SpecialOpeningHour h = dateString)
                  (case specialOpeningHoursAt st specialOpeningHours of
                     Some hs \<Rightarrow> hs | None \<Rightarrow> []) of
             Some specialHour \<Rightarrow>
               if \<not> isOpen specialHour \<or> \<not> truthy (openTime specialHour)
                  \<or> \<not> truthy (closeTime specialHour)
               then (Inr [], st)
               else
                 (case (openTime specialHour, closeTime specialHour) of
                    (Some ot, Some ct) \<Rightarrow>
                      (let (slots, st') =
                             slotsForHours_st tz date covers settings reservations tables
                               (Some \<lparr>open = ot, close = ct\<rparr>) st
                       in (Inr slots, st'))
                  | _ \<Rightarrow> (Inr [], st))
           | None \<Rightarrow>
               (let (slots, st') =
                      slotsForHours_st tz date covers settings reservations tables
                        (case settingsAt st settings of
                           Some s \<Rightarrow> openingHours s (getDayOfWeek tz d)
                         | None \<Rightarrow> None) st
                in (Inr slots, st')))
      | _ \<Rightarrow> (Inl RangeError, st))"

section \<open>The effective opening hours\<close>

text \<open>
  The value of the variable \<^verbatim>\<open>effectiveOpeningHours\<close> at line 50, for the date string
  of line 34: the pair of times of the special-hours entry found for the date string,
  else the entry of the weekday. \<open>None\<close> stands for \<^verbatim>\<open>undefined\<close> and also for the
  return at line 42; in both cases the result is the empty list.
\<close>

definition effectiveOpeningHours ::
  "int \<Rightarrow> int \<Rightarrow> string \<Rightarrow> Settings \<Rightarrow> SpecialOpeningHour list \<Rightarrow> OpeningHours option" where
  "effectiveOpeningHours tz d dateString settings specialOpeningHours =
     (case find (\<lambda>h. date_SpecialOpeningHour h = dateString) specialOpeningHours of
        Some specialHour \<Rightarrow>
          if \<not> isOpen specialHour \<or> \<not> truthy (openTime specialHour)
             \<or> \<not> truthy (closeTime specialHour)
          then None
          else
            (case (openTime specialHour, closeTime specialHour) of
               (Some ot, Some ct) \<Rightarrow> Some \<lparr>open = ot, close = ct\<rparr>
             | _ \<Rightarrow> None)
      | None \<Rightarrow> openingHours settings (getDayOfWeek tz d))"

text \<open>The decimal digit of a number below ten, as \<open>showNat\<close> prints it.\<close>

definition digitChar :: "nat \<Rightarrow> char" where
  "digitChar k = ''0123456789'' ! k"


section \<open>Properties of the loop\<close>

lemma slotAt_None:
  "availableTablesForSlot tz date settings reservations eligible currentTime = []
   \<Longrightarrow> slotAt tz date settings reservations eligible currentTime = None"
  by (simp add: slotAt_def)

lemma slotAt_Some:
  "availableTablesForSlot tz date settings reservations eligible currentTime \<noteq> []
   \<Longrightarrow> slotAt tz date settings reservations eligible currentTime =
       Some \<lparr>time = timeStr tz currentTime,
             availableTables =
               availableTablesForSlot tz date settings reservations eligible currentTime\<rparr>"
  by (simp add: slotAt_def)

lemma slotLoop_acc:
  "slotLoop tz date settings reservations eligible closingTime currentTime availableSlots =
     availableSlots @
     List.map_filter (slotAt tz date settings reservations eligible)
       (candidateTimes currentTime closingTime)"
proof (induction tz date settings reservations eligible closingTime currentTime availableSlots
       rule: slotLoop.induct)
  case (1 tz date settings reservations eligible closingTime currentTime availableSlots)
  show ?case
  proof (cases "currentTime < closingTime")
    case True
    note IH = "1.IH" [OF True refl]
    show ?thesis
    proof (cases "availableTablesForSlot tz date settings reservations eligible currentTime = []")
      case True
      with \<open>currentTime < closingTime\<close> IH show ?thesis
        by (subst slotLoop.simps, subst candidateTimes.simps)
           (simp add: slotAt_None List.map_filter_simps)
    next
      case False
      with \<open>currentTime < closingTime\<close> IH show ?thesis
        by (subst slotLoop.simps, subst candidateTimes.simps)
           (simp add: slotAt_Some List.map_filter_simps)
    qed
  next
    case False
    then show ?thesis
      by (subst slotLoop.simps, subst candidateTimes.simps) (simp add: List.map_filter_simps)
  qed
qed

lemma candidateTimes_closed_form:
  "candidateTimes openingTime closingTime =
     map (\<lambda>k. openingTime + int k * 900000)
       [0 ..< nat ((closingTime - openingTime + 899999) div 900000)]"
proof (induction openingTime closingTime rule: candidateTimes.induct)
  case (1 openingTime closingTime)
  show ?case
  proof (cases "openingTime < closingTime")
    case True
    define n where "n = nat ((closingTime - (openingTime + 15 * 60000) + 899999) div 900000)"
    have ge: "0 \<le> (closingTime - (openingTime + 15 * 60000) + 899999) div 900000"
      using True by (simp add: pos_imp_zdiv_nonneg_iff)
    have "closingTime - openingTime + 899999 =
            (closingTime - (openingTime + 15 * 60000) + 899999) + 900000"
      by simp
    then have "(closingTime - openingTime + 899999) div 900000 =
            (closingTime - (openingTime + 15 * 60000) + 899999) div 900000 + 1"
      by (simp only: div_add_self2)
    with ge have n: "nat ((closingTime - openingTime + 899999) div 900000) = Suc n"
      unfolding n_def by (simp add: nat_add_distrib)
    have "candidateTimes openingTime closingTime =
            openingTime # map (\<lambda>k. openingTime + 15 * 60000 + int k * 900000) [0 ..< n]"
      using "1.IH" [OF True] True unfolding n_def by (subst candidateTimes.simps) simp
    also have "\<dots> = map (\<lambda>k. openingTime + int k * 900000) [0 ..< Suc n]"
      by (simp add: upt_conv_Cons map_Suc_upt [symmetric] del: upt_Suc)
    finally show ?thesis using n by simp
  next
    case False
    then have "nat ((closingTime - openingTime + 899999) div 900000) = 0" by simp
    with False show ?thesis by (subst candidateTimes.simps) simp
  qed
qed

lemma dateStringOf_Some: "\<exists>s. dateStringOf (Some d) = Inr s"
  by (simp add: dateStringOf_def toISOString_def split: prod.split list.split)

lemma dateStringOf_None: "dateStringOf None = Inl RangeError"
  by (simp add: dateStringOf_def toISOString_def)

lemma candidateTimes_empty: "closingTime \<le> openingTime \<Longrightarrow> candidateTimes openingTime closingTime = []"
  by (subst candidateTimes.simps) simp

lemma mem_map_filter: "y \<in> set (List.map_filter f xs) \<longleftrightarrow> (\<exists>x\<in>set xs. f x = Some y)"
  by (induction xs) (auto simp: List.map_filter_simps split: option.splits)

lemma slotsForHours_Some:
  assumes "open hours \<noteq> []" and "eligibleTables covers tables \<noteq> []"
    and "atTime tz d (open hours) = Some openingTime"
    and "atTime tz d (close hours) = Some closingTime"
  shows "slotsForHours tz d covers settings reservations tables (Some hours) =
       List.map_filter (slotAt tz d settings reservations (eligibleTables covers tables))
         (candidateTimes openingTime closingTime)"
  using assms by (simp add: slotsForHours_def slotLoop_acc)

lemma slotsForHours_Nil:
  "hours = None \<or> open (the hours) = [] \<or> eligibleTables covers tables = []
     \<or> atTime tz d (open (the hours)) = None \<or> atTime tz d (close (the hours)) = None
   \<Longrightarrow> slotsForHours tz d covers settings reservations tables hours = []"
  by (cases hours) (auto simp: slotsForHours_def split: option.splits)

lemma slotsForHours_enum:
  "\<exists>openingTime closingTime.
     slotsForHours tz d covers settings reservations tables hours =
       List.map_filter (slotAt tz d settings reservations (eligibleTables covers tables))
         (candidateTimes openingTime closingTime)"
proof (cases "hours = None \<or> open (the hours) = [] \<or> eligibleTables covers tables = []
     \<or> atTime tz d (open (the hours)) = None \<or> atTime tz d (close (the hours)) = None")
  case True
  have "candidateTimes 0 0 = []" by (rule candidateTimes_empty) simp
  then have "List.map_filter (slotAt tz d settings reservations (eligibleTables covers tables))
         (candidateTimes 0 0) = []"
    by (simp add: List.map_filter_simps)
  with slotsForHours_Nil [OF True] show ?thesis by metis
next
  case False
  then obtain h openingTime closingTime where "hours = Some h" "open h \<noteq> []"
    "eligibleTables covers tables \<noteq> []" "atTime tz d (open h) = Some openingTime"
    "atTime tz d (close h) = Some closingTime"
    by auto
  then show ?thesis using slotsForHours_Some by blast
qed

lemma calculateAvailableSlots_None:
  "calculateAvailableSlots tz None covers settings reservations tables specialOpeningHours =
     Inl RangeError"
  by (simp add: calculateAvailableSlots_def dateStringOf_None)

lemma overlap_iff_windows:
  "overlapsReservation tz d settings currentTime r \<longleftrightarrow>
     (\<exists>resStart. atTime tz d (time_Reservation r) = Some resStart \<and>
        occupancyWindow settings currentTime \<inter> occupancyWindow settings resStart \<noteq> {})"
proof (cases "atTime tz d (time_Reservation r)")
  case None
  then show ?thesis by (simp add: overlapsReservation_def)
next
  case (Some rs)
  define T where "T = turnoverMinutes settings * 60000"
  have "(currentTime < rs + T \<and> rs < currentTime + T) \<longleftrightarrow>
          {currentTime ..< currentTime + T} \<inter> {rs ..< rs + T} \<noteq> {}"
  proof
    assume a: "currentTime < rs + T \<and> rs < currentTime + T"
    then have "max currentTime rs \<in> {currentTime ..< currentTime + T} \<inter> {rs ..< rs + T}"
      by auto
    then show "{currentTime ..< currentTime + T} \<inter> {rs ..< rs + T} \<noteq> {}" by blast
  next
    assume "{currentTime ..< currentTime + T} \<inter> {rs ..< rs + T} \<noteq> {}"
    then obtain x where "x \<in> {currentTime ..< currentTime + T}" "x \<in> {rs ..< rs + T}" by blast
    then show "currentTime < rs + T \<and> rs < currentTime + T" by auto
  qed
  with Some show ?thesis
    by (simp add: overlapsReservation_def occupancyWindow_def T_def Let_def)
qed

lemma availableTablesForSlot_filter:
  "availableTablesForSlot tz d settings reservations eligible currentTime =
     filter (\<lambda>table. \<forall>r\<in>set reservations. tableId r = Some (id_Table table) \<longrightarrow>
                \<not> overlapsReservation tz d settings currentTime r) eligible"
  unfolding availableTablesForSlot_def Let_def
  by (rule filter_cong) (auto simp: list_ex_iff)

section \<open>Structure of the result\<close>

lemma calculateAvailableSlots_hours:
  "\<exists>hours. \<forall>covers reservations tables.
     calculateAvailableSlots tz (Some d) covers settings reservations tables specialOpeningHours =
     Inr (slotsForHours tz d covers settings reservations tables hours)"
proof -
  have none: "slotsForHours tz d covers settings reservations tables None = []"
    for covers reservations tables
    by (simp add: slotsForHours_def)
  obtain ds where ds: "dateStringOf (Some d) = Inr ds"
    using dateStringOf_Some by blast
  show ?thesis
  proof (cases "find (\<lambda>h. date_SpecialOpeningHour h = ds) specialOpeningHours")
    case None
    with ds show ?thesis by (auto simp: calculateAvailableSlots_def)
  next
    case (Some sh)
    show ?thesis
    proof (cases "\<not> isOpen sh \<or> \<not> truthy (openTime sh) \<or> \<not> truthy (closeTime sh)")
      case True
      with ds Some have "calculateAvailableSlots tz (Some d) covers settings reservations tables
          specialOpeningHours = Inr []" for covers reservations tables
        by (simp add: calculateAvailableSlots_def)
      with none show ?thesis by metis
    next
      case False
      then obtain ot ct where "openTime sh = Some ot" "closeTime sh = Some ct"
        by (auto simp: truthy_def split: option.splits)
      with ds Some False show ?thesis by (auto simp: calculateAvailableSlots_def)
    qed
  qed
qed

lemma slotsForHours_nonempty:
  assumes "slotsForHours tz d covers settings reservations tables hours \<noteq> []"
  obtains h openingTime closingTime where "hours = Some h" "open h \<noteq> []"
    "eligibleTables covers tables \<noteq> []" "atTime tz d (open h) = Some openingTime"
    "atTime tz d (close h) = Some closingTime"
proof -
  have "\<not> (hours = None \<or> open (the hours) = [] \<or> eligibleTables covers tables = []
     \<or> atTime tz d (open (the hours)) = None \<or> atTime tz d (close (the hours)) = None)"
    using assms slotsForHours_Nil by blast
  then show ?thesis using that by auto
qed

lemma hasNoConflict_iff:
  "hasNoConflict tz d settings reservations currentTime table \<longleftrightarrow>
     (\<forall>r\<in>set reservations. tableId r = Some (id_Table table) \<longrightarrow>
                \<not> overlapsReservation tz d settings currentTime r)"
  by (auto simp: hasNoConflict_def overlap_iff_windows split: option.splits)

lemma availableTablesForSlot_hasNoConflict:
  "availableTablesForSlot tz d settings reservations eligible currentTime =
     filter (hasNoConflict tz d settings reservations currentTime) eligible"
  unfolding availableTablesForSlot_filter
  by (rule filter_cong) (simp_all add: hasNoConflict_iff)

lemma slot_in_result:
  assumes "calculateAvailableSlots tz date covers settings reservations tables specialOpeningHours
             = Inr slots"
    and "slot \<in> set slots"
  shows "\<exists>d (hours :: OpeningHours) openingTime closingTime currentTime. date = Some d \<and>
           atTime tz d (open hours) = Some openingTime \<and>
           atTime tz d (close hours) = Some closingTime \<and>
           currentTime \<in> set (candidateTimes openingTime closingTime) \<and>
           availableTablesForSlot tz d settings reservations (eligibleTables covers tables)
             currentTime \<noteq> [] \<and>
           slot = \<lparr>time = timeStr tz currentTime,
                   availableTables = availableTablesForSlot tz d settings reservations
                                       (eligibleTables covers tables) currentTime\<rparr>"
proof -
  from assms(1) obtain d where d: "date = Some d"
    by (cases date) (simp_all add: calculateAvailableSlots_None)
  from calculateAvailableSlots_hours [of tz d settings specialOpeningHours] assms(1) d
  obtain hours where slots: "slots = slotsForHours tz d covers settings reservations tables hours"
    by auto
  with assms(2) have "slotsForHours tz d covers settings reservations tables hours \<noteq> []"
    by auto
  then obtain h openingTime closingTime where h: "hours = Some h" "open h \<noteq> []"
    "eligibleTables covers tables \<noteq> []" "atTime tz d (open h) = Some openingTime"
    "atTime tz d (close h) = Some closingTime"
    by (rule slotsForHours_nonempty)
  have "slots = List.map_filter (slotAt tz d settings reservations (eligibleTables covers tables))
         (candidateTimes openingTime closingTime)"
    unfolding slots h(1) using h(2,3,4,5) by (rule slotsForHours_Some)
  with assms(2) obtain currentTime where
    cur: "currentTime \<in> set (candidateTimes openingTime closingTime)" and
    at: "slotAt tz d settings reservations (eligibleTables covers tables) currentTime = Some slot"
    by (auto simp: mem_map_filter)
  from at have "availableTablesForSlot tz d settings reservations (eligibleTables covers tables)
             currentTime \<noteq> []"
    and "slot = \<lparr>time = timeStr tz currentTime,
                   availableTables = availableTablesForSlot tz d settings reservations
                                       (eligibleTables covers tables) currentTime\<rparr>"
    by (auto simp: slotAt_def Let_def split: if_splits)
  with d h(4,5) cur show ?thesis by blast
qed

lemma find_first_match:
  assumes "\<forall>h\<in>set pre. \<not> P h" and "P x"
  shows "find P (pre @ x # post) = Some x"
  using assms by (induction pre) simp_all

lemma eligibleTables_mono:
  "p \<le> p' \<Longrightarrow> set (eligibleTables p' tables) \<subseteq> set (eligibleTables p tables)"
  by (auto simp: eligibleTables_def)

lemma availableTablesForSlot_mono:
  "set eligible' \<subseteq> set eligible \<Longrightarrow>
   set (availableTablesForSlot tz d settings reservations eligible' currentTime)
     \<subseteq> set (availableTablesForSlot tz d settings reservations eligible currentTime)"
  by (auto simp: availableTablesForSlot_hasNoConflict)

lemma availableTablesForSlot_subset:
  "set (availableTablesForSlot tz d settings reservations eligible currentTime) \<subseteq> set eligible"
  by (auto simp: availableTablesForSlot_hasNoConflict)


lemma overlapsReservation_openingHours:
  "overlapsReservation tz d (settings\<lparr>openingHours := oh\<rparr>) =
   overlapsReservation tz d settings"
  by (intro ext) (simp add: overlapsReservation_def split: option.splits)

lemma slotAt_openingHours:
  "slotAt tz d (settings\<lparr>openingHours := oh\<rparr>) reservations eligible =
   slotAt tz d settings reservations eligible"
  by (rule ext) (simp add: slotAt_def availableTablesForSlot_def overlapsReservation_openingHours)

lemma slotsForHours_openingHours:
  "slotsForHours tz d covers (settings\<lparr>openingHours := oh\<rparr>) reservations tables hours =
   slotsForHours tz d covers settings reservations tables hours"
  by (simp add: slotsForHours_def slotLoop_acc slotAt_openingHours
           split: option.splits)


section \<open>Start times and local time\<close>

lemma calculateAvailableSlots_override:
  assumes "dateStringOf (Some d) = Inr dateString"
    and "find (\<lambda>h. date_SpecialOpeningHour h = dateString) specialOpeningHours = Some specialHour"
    and "isOpen specialHour" and "openTime specialHour = Some ot" and "ot \<noteq> []"
    and "closeTime specialHour = Some ct" and "ct \<noteq> []"
  shows "calculateAvailableSlots tz (Some d) covers settings reservations tables
           specialOpeningHours =
         Inr (slotsForHours tz d covers settings reservations tables
                (Some \<lparr>open = ot, close = ct\<rparr>))"
  using assms by (simp add: calculateAvailableSlots_def truthy_def)

lemma calculateAvailableSlots_default:
  assumes "dateStringOf (Some d) = Inr dateString"
    and "find (\<lambda>h. date_SpecialOpeningHour h = dateString) specialOpeningHours = None"
  shows "calculateAvailableSlots tz (Some d) covers settings reservations tables
           specialOpeningHours =
         Inr (slotsForHours tz d covers settings reservations tables
                (openingHours settings (getDayOfWeek tz d)))"
  using assms by (simp add: calculateAvailableSlots_def)

lemma candidateTimes_Cons:
  "openingTime < closingTime \<Longrightarrow>
   candidateTimes openingTime closingTime =
     openingTime # candidateTimes (openingTime + 900000) closingTime"
  by (subst candidateTimes.simps) simp

lemma candidateTimes_mem:
  "t \<in> set (candidateTimes openingTime closingTime) \<longleftrightarrow>
     (\<exists>k::nat. t = openingTime + int k * 900000) \<and> t < closingTime"
proof (induction openingTime closingTime rule: candidateTimes.induct)
  case (1 openingTime closingTime)
  show ?case
  proof (cases "openingTime < closingTime")
    case True
    have "(\<exists>k::nat. t = openingTime + int k * 900000) \<longleftrightarrow>
            t = openingTime \<or> (\<exists>k::nat. t = openingTime + 15 * 60000 + int k * 900000)"
    proof
      assume "\<exists>k::nat. t = openingTime + int k * 900000"
      then obtain k :: nat where k: "t = openingTime + int k * 900000" by blast
      show "t = openingTime \<or> (\<exists>k::nat. t = openingTime + 15 * 60000 + int k * 900000)"
      proof (cases k)
        case 0
        with k show ?thesis by simp
      next
        case (Suc j)
        with k have "t = openingTime + 15 * 60000 + int j * 900000" by simp
        then show ?thesis by blast
      qed
    next
      assume "t = openingTime \<or> (\<exists>k::nat. t = openingTime + 15 * 60000 + int k * 900000)"
      then show "\<exists>k::nat. t = openingTime + int k * 900000"
      proof
        assume "t = openingTime"
        then have "t = openingTime + int 0 * 900000" by simp
        then show ?thesis by blast
      next
        assume "\<exists>k::nat. t = openingTime + 15 * 60000 + int k * 900000"
        then obtain k :: nat where "t = openingTime + 15 * 60000 + int k * 900000" by blast
        then have "t = openingTime + int (Suc k) * 900000" by simp
        then show ?thesis by blast
      qed
    qed
    with True "1.IH" [OF True] show ?thesis
      by (subst candidateTimes.simps) auto
  next
    case False
    have "\<not> t < closingTime" if "t = openingTime + int k * 900000" for k :: nat
      using that False by simp
    with False show ?thesis
      by (subst candidateTimes.simps) auto
  qed
qed

lemma candidateTimes_sorted: "sorted_wrt (<) (candidateTimes openingTime closingTime)"
proof (induction openingTime closingTime rule: candidateTimes.induct)
  case (1 openingTime closingTime)
  show ?case
  proof (cases "openingTime < closingTime")
    case True
    have "openingTime < t" if "t \<in> set (candidateTimes (openingTime + 15 * 60000) closingTime)" for t
    proof -
      from that obtain k :: nat where "t = openingTime + 15 * 60000 + int k * 900000"
        unfolding candidateTimes_mem by blast
      then show ?thesis by simp
    qed
    with True "1.IH" [OF True] show ?thesis
      by (subst candidateTimes.simps) auto
  next
    case False
    then show ?thesis by (subst candidateTimes.simps) simp
  qed
qed

lemma getHours_local: "getHours tz (localMidnight tz d + x) = getHours 0 x"
proof -
  have "(localMidnight tz d + x + tz) div msPerHour = ((d + tz) div msPerDay) * 24 + x div msPerHour"
    by (simp add: localMidnight_def msPerDay_def msPerHour_def)
  then show ?thesis by (simp add: getHours_def)
qed

lemma getMinutes_local: "getMinutes tz (localMidnight tz d + x) = getMinutes 0 x"
proof -
  have "(localMidnight tz d + x + tz) div msPerMinute =
          x div msPerMinute + ((d + tz) div msPerDay * 24) * 60"
    by (simp add: localMidnight_def msPerDay_def msPerMinute_def)
  then have "((localMidnight tz d + x + tz) div msPerMinute) mod 60 = (x div msPerMinute) mod 60"
    by (simp only: mod_mult_self1)
  then show ?thesis by (simp add: getMinutes_def)
qed

lemma timeStr_local: "timeStr tz (localMidnight tz d + x) = timeStr 0 x"
  by (simp add: timeStr_def getHours_local getMinutes_local)

lemmas parse_defs = atTime_def hoursMinutes_def Number_def isDigit_def digitValue_def
  setHours_def msPerHour_def msPerMinute_def

lemmas print_defs = timeStr_def getHours_def getMinutes_def msPerHour_def msPerMinute_def
  padStart_def showNat.simps

lemma atTime_17_00: "atTime tz d ''17:00'' = Some (localMidnight tz d + 61200000)"
  by (simp add: parse_defs)
lemma atTime_17_10: "atTime tz d ''17:10'' = Some (localMidnight tz d + 61800000)"
  by (simp add: parse_defs)
lemma atTime_17_45: "atTime tz d ''17:45'' = Some (localMidnight tz d + 63900000)"
  by (simp add: parse_defs)
lemma atTime_18_00: "atTime tz d ''18:00'' = Some (localMidnight tz d + 64800000)"
  by (simp add: parse_defs)
lemma atTime_18_30: "atTime tz d ''18:30'' = Some (localMidnight tz d + 66600000)"
  by (simp add: parse_defs)
lemma atTime_19_00: "atTime tz d ''19:00'' = Some (localMidnight tz d + 68400000)"
  by (simp add: parse_defs)
lemma atTime_22_00: "atTime tz d ''22:00'' = Some (localMidnight tz d + 79200000)"
  by (simp add: parse_defs)

lemma candidates_17_to_22:
  "map (timeStr tz) (candidateTimes (localMidnight tz d + 61200000) (localMidnight tz d + 79200000)) =
     [''17:00'', ''17:15'', ''17:30'', ''17:45'', ''18:00'', ''18:15'', ''18:30'', ''18:45'',
      ''19:00'', ''19:15'', ''19:30'', ''19:45'', ''20:00'', ''20:15'', ''20:30'', ''20:45'',
      ''21:00'', ''21:15'', ''21:30'', ''21:45'']"
proof -
  have "candidateTimes (localMidnight tz d + 61200000) (localMidnight tz d + 79200000) =
     map (\<lambda>x. localMidnight tz d + x)
       [61200000, 62100000, 63000000, 63900000, 64800000, 65700000, 66600000, 67500000,
        68400000, 69300000, 70200000, 71100000, 72000000, 72900000, 73800000, 74700000,
        75600000, 76500000, 77400000, 78300000]"
    by (simp add: candidateTimes.simps)
  then show ?thesis
    by (simp add: timeStr_local) (simp add: print_defs)
qed

lemma overlapsReservation_iff:
  "atTime tz d (time_Reservation r) = Some resStart \<Longrightarrow>
   overlapsReservation tz d settings slotStart r \<longleftrightarrow>
     slotStart < resStart + turnoverMinutes settings * 60000
     \<and> slotStart + turnoverMinutes settings * 60000 > resStart"
  by (simp add: overlapsReservation_def Let_def)

lemma availableTablesForSlot_single:
  "tableId r = Some (id_Table table) \<Longrightarrow>
   availableTablesForSlot tz d settings [r] [table] slotStart =
     (if overlapsReservation tz d settings slotStart r then [] else [table])"
  by (simp add: availableTablesForSlot_def)


lemma slotAt_no_reservations:
  "slotAt tz d settings [] [table] currentTime =
     Some \<lparr>time = timeStr tz currentTime, availableTables = [table]\<rparr>"
  by (simp add: slotAt_def availableTablesForSlot_def)

lemma map_filter_total:
  "(\<And>x. f x = Some (g x)) \<Longrightarrow> List.map_filter f xs = map g xs"
  by (induction xs) (simp_all add: List.map_filter_simps)

lemma slots_no_reservations:
  assumes "capacity table \<ge> covers" and "isReady table" and "open hours \<noteq> []"
    and "atTime tz d (open hours) = Some openingTime"
    and "atTime tz d (close hours) = Some closingTime"
  shows "slotsForHours tz d covers settings [] [table] (Some hours) =
           map (\<lambda>s. \<lparr>time = s, availableTables = [table]\<rparr>)
             (map (timeStr tz) (candidateTimes openingTime closingTime))"
proof -
  have el: "eligibleTables covers [table] = [table]"
    using assms(1,2) by (simp add: eligibleTables_def)
  have "slotsForHours tz d covers settings [] [table] (Some hours) =
       List.map_filter (slotAt tz d settings [] [table]) (candidateTimes openingTime closingTime)"
    using slotsForHours_Some [OF assms(3) _ assms(4,5), of covers "[table]"] el by simp
  also have "\<dots> = map (\<lambda>t. \<lparr>time = timeStr tz t, availableTables = [table]\<rparr>)
                     (candidateTimes openingTime closingTime)"
    by (rule map_filter_total) (rule slotAt_no_reservations)
  finally show ?thesis by (simp add: comp_def)
qed

lemma candidates_17_to_19:
  "map (timeStr tz) (candidateTimes (localMidnight tz d + 61200000) (localMidnight tz d + 68400000)) =
     [''17:00'', ''17:15'', ''17:30'', ''17:45'', ''18:00'', ''18:15'', ''18:30'', ''18:45'']"
proof -
  have "candidateTimes (localMidnight tz d + 61200000) (localMidnight tz d + 68400000) =
     map (\<lambda>x. localMidnight tz d + x)
       [61200000, 62100000, 63000000, 63900000, 64800000, 65700000, 66600000, 67500000]"
    by (simp add: candidateTimes.simps)
  then show ?thesis
    by (simp add: timeStr_local) (simp add: print_defs)
qed

lemma candidates_17_10_to_18:
  "map (timeStr tz) (candidateTimes (localMidnight tz d + 61800000) (localMidnight tz d + 64800000)) =
     [''17:10'', ''17:25'', ''17:40'', ''17:55'']"
proof -
  have "candidateTimes (localMidnight tz d + 61800000) (localMidnight tz d + 64800000) =
     map (\<lambda>x. localMidnight tz d + x) [61800000, 62700000, 63600000, 64500000]"
    by (simp add: candidateTimes.simps)
  then show ?thesis
    by (simp add: timeStr_local) (simp add: print_defs)
qed


section \<open>The store-based engine computes the same result and only adds objects\<close>

lemma prefix_nth: "prefix s s' \<Longrightarrow> r < length s \<Longrightarrow> s' ! r = s ! r"
  by (auto simp: prefix_def nth_append)

lemma getTime_Some_prefix:
  "getTime s r = Some v \<Longrightarrow> prefix s s' \<Longrightarrow> getTime s' r = Some v"
  by (auto simp: getTime_def prefix_def nth_append split: if_splits)

lemma settingsAt_prefix:
  "settingsAt s r = Some v \<Longrightarrow> prefix s s' \<Longrightarrow> settingsAt s' r = Some v"
  by (auto simp: settingsAt_def prefix_def nth_append split: if_splits)

lemma reservationsAt_prefix:
  "reservationsAt s r = Some v \<Longrightarrow> prefix s s' \<Longrightarrow> reservationsAt s' r = Some v"
  by (auto simp: reservationsAt_def prefix_def nth_append split: if_splits)

lemma tablesAt_prefix:
  "tablesAt s r = Some v \<Longrightarrow> prefix s s' \<Longrightarrow> tablesAt s' r = Some v"
  by (auto simp: tablesAt_def prefix_def nth_append split: if_splits)

lemma specialOpeningHoursAt_prefix:
  "specialOpeningHoursAt s r = Some v \<Longrightarrow> prefix s s' \<Longrightarrow> specialOpeningHoursAt s' r = Some v"
  by (auto simp: specialOpeningHoursAt_def prefix_def nth_append split: if_splits)

lemma overlapsReservation_st_prefix:
  "prefix s (snd (overlapsReservation_st tz date settings currentTime s res))"
  by (simp add: overlapsReservation_st_def newDate_def setHours_st_def Let_def
           split: prod.splits)

lemma overlapsReservation_st_value:
  assumes "getTime s date = Some d" and "getTime s currentTime = Some cur"
    and "settingsAt s settings = Some stg"
  shows "fst (overlapsReservation_st tz date settings currentTime s res) =
           overlapsReservation tz d stg cur res"
proof -
  from assms(2) have cl: "currentTime < length s"
    by (simp add: getTime_def split: if_splits)
  from assms(3) have sl: "settings < length s"
    by (simp add: settingsAt_def split: if_splits)
  obtain resH resM where hm: "hoursMinutes (time_Reservation res) = (resH, resM)"
    by (cases "hoursMinutes (time_Reservation res)")
  define st2 where "st2 = s @ [DateObject (setHours tz d resH resM)]"
  have a: "setHours_st tz (s @ [DateObject (Some d)]) (length s) resH resM = st2"
    by (simp add: setHours_st_def getTime_def st2_def)
  have rs: "getTime (st2 @ xs) (length s) = setHours tz d resH resM" for xs
    by (simp add: getTime_def st2_def nth_append)
  have cur: "getTime (st2 @ xs) currentTime = Some cur" for xs
    using assms(2) by (rule getTime_Some_prefix) (simp add: st2_def)
  have tm: "turnoverMinutesAt (st2 @ xs) settings = turnoverMinutes stg" for xs
  proof -
    have "settingsAt (st2 @ xs) settings = Some stg"
      using assms(3) by (rule settingsAt_prefix) (simp add: st2_def)
    then show ?thesis by (simp add: turnoverMinutesAt_def)
  qed
  have l2: "length st2 = Suc (length s)"
    by (simp add: st2_def)
  have nd: "getTime (st2 @ ys @ [DateObject v] @ zs) (length st2 + length ys) = v" for ys zs v
    by (simp add: getTime_def nth_append)
  show ?thesis
    using rs [of "[]"] cur [of "[]"] tm [of "[]"] rs cur tm
      nd [of "[]" _ "[]"] nd [of "[]"] nd [of "[_]" _ "[]"]
    by (simp add: overlapsReservation_st_def overlapsReservation_def atTime_def newDate_def
          assms(1) hm a Let_def plusMs_def lessDate_def l2 split: option.splits)
qed

lemma some_st_Cons:
  "some_st p s (x # xs) =
     (if fst (p s x) then (True, snd (p s x)) else some_st p (snd (p s x)) xs)"
  by (simp add: Let_def case_prod_beta)

lemma filter_st_Cons:
  "filter_st p s (x # xs) =
     (if fst (p s x) then x # fst (filter_st p (snd (p s x)) xs)
      else fst (filter_st p (snd (p s x)) xs),
      snd (filter_st p (snd (p s x)) xs))"
  by (simp add: Let_def case_prod_beta)

lemma some_st_spec:
  assumes "getTime s date = Some d" and "getTime s currentTime = Some cur"
    and "settingsAt s settings = Some stg"
  shows "fst (some_st (overlapsReservation_st tz date settings currentTime) s xs) =
           list_ex (overlapsReservation tz d stg cur) xs
         \<and> prefix s (snd (some_st (overlapsReservation_st tz date settings currentTime) s xs))"
  using assms
proof (induction xs arbitrary: s)
  case Nil
  show ?case by simp
next
  case (Cons x xs)
  let ?r = "overlapsReservation_st tz date settings currentTime s x"
  have pre: "prefix s (snd ?r)"
    by (rule overlapsReservation_st_prefix)
  have val: "fst ?r = overlapsReservation tz d stg cur x"
    using Cons.prems by (rule overlapsReservation_st_value)
  have IH: "fst (some_st (overlapsReservation_st tz date settings currentTime) (snd ?r) xs) =
           list_ex (overlapsReservation tz d stg cur) xs
         \<and> prefix (snd ?r)
             (snd (some_st (overlapsReservation_st tz date settings currentTime) (snd ?r) xs))"
  proof (rule Cons.IH)
    show "getTime (snd ?r) date = Some d"
      using Cons.prems(1) pre by (rule getTime_Some_prefix)
    show "getTime (snd ?r) currentTime = Some cur"
      using Cons.prems(2) pre by (rule getTime_Some_prefix)
    show "settingsAt (snd ?r) settings = Some stg"
      using Cons.prems(3) pre by (rule settingsAt_prefix)
  qed
  show ?case
  proof (cases "fst ?r")
    case True
    with val pre show ?thesis by (simp add: some_st_Cons del: some_st.simps)
  next
    case False
    from IH have "prefix s
             (snd (some_st (overlapsReservation_st tz date settings currentTime) (snd ?r) xs))"
      using pre prefix_order.trans by blast
    with False val IH show ?thesis by (simp add: some_st_Cons del: some_st.simps)
  qed
qed

lemma availableTablesForSlot_st_spec:
  assumes "getTime s date = Some d" and "getTime s currentTime = Some cur"
    and "settingsAt s settings = Some stg" and "reservationsAt s reservations = Some rs"
  shows "fst (availableTablesForSlot_st tz date settings reservations eligible currentTime s) =
           availableTablesForSlot tz d stg rs eligible cur
         \<and> prefix s
             (snd (availableTablesForSlot_st tz date settings reservations eligible currentTime s))"
  using assms
proof (induction eligible arbitrary: s)
  case Nil
  show ?case by (simp add: availableTablesForSlot_st_def availableTablesForSlot_def)
next
  case (Cons t ts)
  let ?xs = "filter (\<lambda>r. tableId r = Some (id_Table t)) rs"
  let ?r = "some_st (overlapsReservation_st tz date settings currentTime) s ?xs"
  let ?found = "availableTablesForSlot_st tz date settings reservations ts currentTime (snd ?r)"
  from some_st_spec [OF Cons.prems(1,2,3), of tz ?xs]
  have val: "fst ?r = list_ex (overlapsReservation tz d stg cur) ?xs" and pre: "prefix s (snd ?r)"
    by simp_all
  have IH: "fst ?found = availableTablesForSlot tz d stg rs ts cur \<and> prefix (snd ?r) (snd ?found)"
  proof (rule Cons.IH)
    show "getTime (snd ?r) date = Some d"
      using Cons.prems(1) pre by (rule getTime_Some_prefix)
    show "getTime (snd ?r) currentTime = Some cur"
      using Cons.prems(2) pre by (rule getTime_Some_prefix)
    show "settingsAt (snd ?r) settings = Some stg"
      using Cons.prems(3) pre by (rule settingsAt_prefix)
    show "reservationsAt (snd ?r) reservations = Some rs"
      using Cons.prems(4) pre by (rule reservationsAt_prefix)
  qed
  have unfold: "availableTablesForSlot_st tz date settings reservations (t # ts) currentTime s =
      (if \<not> fst ?r then t # fst ?found else fst ?found, snd ?found)"
    using Cons.prems(4)
    by (simp add: availableTablesForSlot_st_def filter_st_Cons Let_def case_prod_beta
             del: filter_st.simps)
  have pure: "availableTablesForSlot tz d stg rs (t # ts) cur =
      (if \<not> list_ex (overlapsReservation tz d stg cur) ?xs
       then t # availableTablesForSlot tz d stg rs ts cur
       else availableTablesForSlot tz d stg rs ts cur)"
    by (simp add: availableTablesForSlot_def)
  from IH pre have "prefix s (snd ?found)"
    using prefix_order.trans by blast
  with val IH show ?case
    unfolding unfold pure by simp
qed

lemma slotLoop_st_spec:
  assumes "getTime s date = Some d" and "settingsAt s settings = Some stg"
    and "reservationsAt s reservations = Some rs"
    and "getTime s closingTime = Some c" and "getTime s currentTime = Some cur"
  shows "fst (slotLoop_st tz date settings reservations eligible closingTime currentTime
                availableSlots s) =
           slotLoop tz d stg rs eligible c cur availableSlots
         \<and> prefix s (snd (slotLoop_st tz date settings reservations eligible closingTime
                           currentTime availableSlots s))"
  using assms
proof (induction tz date settings reservations eligible closingTime currentTime availableSlots s
       arbitrary: cur rule: slotLoop_st.induct)
  case (1 tz date settings reservations eligible closingTime currentTime availableSlots st)
  show ?case
  proof (cases "cur < c")
    case False
    with "1.prems" show ?thesis
      by (subst slotLoop_st.simps, subst (2) slotLoop_st.simps, subst slotLoop.simps)
         (simp add: lessDate_def)
  next
    case True
    then have lt: "lessDate (getTime st currentTime) (getTime st closingTime)"
      using "1.prems" by (simp add: lessDate_def)
    let ?found = "availableTablesForSlot_st tz date settings reservations eligible currentTime st"
    let ?next = "newDate (snd ?found) (plusMs (getTime (snd ?found) currentTime) (15 * 60000))"
    let ?acc = "if length (fst ?found) > 0
               then availableSlots @
                      [\<lparr>time = timeStr_st tz st currentTime, availableTables = fst ?found\<rparr>]
               else availableSlots"
    let ?rec = "slotLoop_st tz date settings reservations eligible closingTime (fst ?next)
                ?acc (snd ?next)"
    from availableTablesForSlot_st_spec [OF "1.prems"(1,5,2,3), of tz eligible]
    have val: "fst ?found = availableTablesForSlot tz d stg rs eligible cur"
      and pre: "prefix st (snd ?found)"
      by simp_all
    have "prefix (snd ?found) (snd ?next)"
      by (simp add: newDate_def)
    with pre have pre2: "prefix st (snd ?next)"
      using prefix_order.trans by blast
    have cur': "getTime (snd ?next) (fst ?next) = Some (cur + 15 * 60000)"
      using getTime_Some_prefix [OF "1.prems"(5) pre]
      by (simp add: newDate_def getTime_def plusMs_def)
    have IH: "fst ?rec = slotLoop tz d stg rs eligible c (cur + 15 * 60000) ?acc
         \<and> prefix (snd ?next) (snd ?rec)"
    proof (rule "1.IH" [OF lt refl refl])
      show "getTime (snd ?next) date = Some d"
        using "1.prems"(1) pre2 by (rule getTime_Some_prefix)
      show "settingsAt (snd ?next) settings = Some stg"
        using "1.prems"(2) pre2 by (rule settingsAt_prefix)
      show "reservationsAt (snd ?next) reservations = Some rs"
        using "1.prems"(3) pre2 by (rule reservationsAt_prefix)
      show "getTime (snd ?next) closingTime = Some c"
        using "1.prems"(4) pre2 by (rule getTime_Some_prefix)
      show "getTime (snd ?next) (fst ?next) = Some (cur + 15 * 60000)"
        by (rule cur')
    qed
    have ts: "timeStr_st tz st currentTime = timeStr tz cur"
      using "1.prems"(5) by (simp add: timeStr_st_def)
    have unfold: "slotLoop_st tz date settings reservations eligible closingTime currentTime
                availableSlots st = ?rec"
      using lt by (subst slotLoop_st.simps) (simp add: Let_def)
    have pure: "slotLoop tz d stg rs eligible c cur availableSlots =
        slotLoop tz d stg rs eligible c (cur + 15 * 60000)
          (if length (availableTablesForSlot tz d stg rs eligible cur) > 0
           then availableSlots @ [\<lparr>time = timeStr tz cur,
                  availableTables = availableTablesForSlot tz d stg rs eligible cur\<rparr>]
           else availableSlots)"
      using True by (subst slotLoop.simps) (simp add: Let_def)
    from IH pre2 have "prefix st (snd ?rec)"
      using prefix_order.trans by blast
    moreover from IH have "fst ?rec = slotLoop tz d stg rs eligible c cur availableSlots"
      unfolding pure val ts by simp
    ultimately show ?thesis
      unfolding unfold by simp
  qed
qed

lemma slotLoop_st_invalid:
  "getTime s currentTime = None \<or> getTime s closingTime = None \<Longrightarrow>
   slotLoop_st tz date settings reservations eligible closingTime currentTime availableSlots s =
     (availableSlots, s)"
  by (subst slotLoop_st.simps) (auto simp: lessDate_def split: option.splits)

lemma slotsForHours_st_spec:
  assumes "getTime s date = Some d" and "settingsAt s settings = Some stg"
    and "reservationsAt s reservations = Some rs" and "tablesAt s tables = Some ts"
  shows "fst (slotsForHours_st tz date covers settings reservations tables hours s) =
           slotsForHours tz d covers stg rs ts hours
         \<and> prefix s (snd (slotsForHours_st tz date covers settings reservations tables hours s))"
proof (cases "hours = None \<or> open (the hours) = [] \<or> eligibleTables covers ts = []")
  case True
  with assms(4) show ?thesis
    by (cases hours) (auto simp: slotsForHours_st_def slotsForHours_def)
next
  case False
  then obtain h where h: "hours = Some h" "open h \<noteq> []" "eligibleTables covers ts \<noteq> []"
    by auto
  obtain startH startM where sm: "hoursMinutes (open h) = (startH, startM)"
    by (cases "hoursMinutes (open h)")
  obtain endH endM where em: "hoursMinutes (close h) = (endH, endM)"
    by (cases "hoursMinutes (close h)")
  from assms(1) have dl: "date < length s"
    by (simp add: getTime_def split: if_splits)
  define st4 where
    "st4 = s @ [DateObject (setHours tz d startH startM), DateObject (setHours tz d endH endM)]"
  have pre: "prefix s st4"
    by (simp add: st4_def)
  have st2: "setHours_st tz (s @ [DateObject (Some d)]) (length s) startH startM =
               s @ [DateObject (setHours tz d startH startM)]"
    by (simp add: setHours_st_def getTime_def)
  have d2: "getTime (s @ [DateObject (setHours tz d startH startM)]) date = Some d"
    using assms(1) by (rule getTime_Some_prefix) simp
  have st4': "setHours_st tz (s @ [DateObject (setHours tz d startH startM), DateObject (Some d)])
                (Suc (length s)) endH endM = st4"
    by (simp add: setHours_st_def getTime_def st4_def nth_append list_update_append)
  have unfold: "slotsForHours_st tz date covers settings reservations tables hours s =
      slotLoop_st tz date settings reservations (eligibleTables covers ts) (Suc (length s))
        (length s) [] st4"
    using h assms(1,4) sm em st2 d2 st4'
    by (simp add: slotsForHours_st_def newDate_def Let_def)
  have o: "getTime st4 (length s) = atTime tz d (open h)"
    by (simp add: st4_def getTime_def atTime_def sm nth_append)
  have c: "getTime st4 (Suc (length s)) = atTime tz d (close h)"
    by (simp add: st4_def getTime_def atTime_def em nth_append)
  show ?thesis
  proof (cases "atTime tz d (open h) = None \<or> atTime tz d (close h) = None")
    case True
    then have "slotLoop_st tz date settings reservations (eligibleTables covers ts)
        (Suc (length s)) (length s) [] st4 = ([], st4)"
      using o c by (intro slotLoop_st_invalid) auto
    moreover from True have "slotsForHours tz d covers stg rs ts hours = []"
      using h by (auto simp: slotsForHours_def split: option.splits)
    ultimately show ?thesis
      unfolding unfold using pre by simp
  next
    case False
    then obtain ot ct where oc: "atTime tz d (open h) = Some ot" "atTime tz d (close h) = Some ct"
      by auto
    have spec: "fst (slotLoop_st tz date settings reservations (eligibleTables covers ts)
                (Suc (length s)) (length s) [] st4) =
           slotLoop tz d stg rs (eligibleTables covers ts) ct ot []
         \<and> prefix st4 (snd (slotLoop_st tz date settings reservations (eligibleTables covers ts)
                (Suc (length s)) (length s) [] st4))"
    proof (rule slotLoop_st_spec)
      show "getTime st4 date = Some d"
        using assms(1) pre by (rule getTime_Some_prefix)
      show "settingsAt st4 settings = Some stg"
        using assms(2) pre by (rule settingsAt_prefix)
      show "reservationsAt st4 reservations = Some rs"
        using assms(3) pre by (rule reservationsAt_prefix)
      show "getTime st4 (Suc (length s)) = Some ct"
        using c oc by simp
      show "getTime st4 (length s) = Some ot"
        using o oc by simp
    qed
    have "slotsForHours tz d covers stg rs ts hours =
            slotLoop tz d stg rs (eligibleTables covers ts) ct ot []"
      using h oc by (simp add: slotsForHours_def)
    moreover from spec pre have "prefix s (snd (slotLoop_st tz date settings reservations
        (eligibleTables covers ts) (Suc (length s)) (length s) [] st4))"
      using prefix_order.trans by blast
    ultimately show ?thesis
      unfolding unfold using spec by simp
  qed
qed

lemma calculateAvailableSlots_st_spec:
  assumes "date < length s" and "s ! date = DateObject v"
    and "settingsAt s settings = Some stg" and "reservationsAt s reservations = Some rs"
    and "tablesAt s tables = Some ts"
    and "specialOpeningHoursAt s specialOpeningHours = Some sp"
  shows "fst (calculateAvailableSlots_st tz date covers settings reservations tables
                specialOpeningHours s) =
           calculateAvailableSlots tz v covers stg rs ts sp
         \<and> prefix s (snd (calculateAvailableSlots_st tz date covers settings reservations tables
                           specialOpeningHours s))"
proof (cases v)
  case None
  with assms(1,2) have "getTime s date = None"
    by (simp add: getTime_def)
  then show ?thesis
    using None by (simp add: calculateAvailableSlots_st_def calculateAvailableSlots_def
                     dateStringOf_None)
next
  case (Some d)
  with assms(1,2) have gd: "getTime s date = Some d"
    by (simp add: getTime_def)
  obtain ds where ds: "dateStringOf (Some d) = Inr ds"
    using dateStringOf_Some by blast
  note spec = slotsForHours_st_spec [OF gd assms(3,4,5), of tz covers]
  show ?thesis
  proof (cases "find (\<lambda>h. date_SpecialOpeningHour h = ds) sp")
    case None
    with gd ds Some assms(3,6) spec [of "openingHours stg (getDayOfWeek tz d)"] show ?thesis
      by (simp add: calculateAvailableSlots_st_def calculateAvailableSlots_def case_prod_beta)
  next
    case sh: (Some specialHour)
    show ?thesis
    proof (cases "\<not> isOpen specialHour \<or> \<not> truthy (openTime specialHour)
                  \<or> \<not> truthy (closeTime specialHour)")
      case True
      with gd ds Some assms(6) sh show ?thesis
        by (simp add: calculateAvailableSlots_st_def calculateAvailableSlots_def)
    next
      case False
      then obtain ot ct where oc: "openTime specialHour = Some ot" "closeTime specialHour = Some ct"
        by (auto simp: truthy_def split: option.splits)
      with False gd ds Some assms(6) sh spec [of "Some \<lparr>open = ot, close = ct\<rparr>"] show ?thesis
        by (simp add: calculateAvailableSlots_st_def calculateAvailableSlots_def case_prod_beta)
    qed
  qed
qed

section \<open>The effective hours and the time of a slot\<close>

lemma calculateAvailableSlots_effective:
  assumes "dateStringOf (Some d) = Inr dateString"
  shows "calculateAvailableSlots tz (Some d) covers settings reservations tables
           specialOpeningHours =
         Inr (slotsForHours tz d covers settings reservations tables
                (effectiveOpeningHours tz d dateString settings specialOpeningHours))"
proof -
  have none: "slotsForHours tz d covers settings reservations tables None = []"
    by (simp add: slotsForHours_def)
  show ?thesis
  proof (cases "find (\<lambda>h. date_SpecialOpeningHour h = dateString) specialOpeningHours")
    case None
    with assms show ?thesis
      by (simp add: calculateAvailableSlots_def effectiveOpeningHours_def)
  next
    case (Some sh)
    show ?thesis
    proof (cases "\<not> isOpen sh \<or> \<not> truthy (openTime sh) \<or> \<not> truthy (closeTime sh)")
      case True
      with assms Some none show ?thesis
        by (simp add: calculateAvailableSlots_def effectiveOpeningHours_def)
    next
      case False
      then obtain ot ct where "openTime sh = Some ot" "closeTime sh = Some ct"
        by (auto simp: truthy_def split: option.splits)
      with assms Some False show ?thesis
        by (simp add: calculateAvailableSlots_def effectiveOpeningHours_def)
    qed
  qed
qed


lemma digitChar_props:
  assumes "k < 10"
  shows "isDigit (digitChar k)" and "digitValue (digitChar k) = int k"
    and "digitChar k \<noteq> CHR '':''"
proof -
  from assms have "k = 0 \<or> k = 1 \<or> k = 2 \<or> k = 3 \<or> k = 4 \<or> k = 5 \<or> k = 6 \<or> k = 7
      \<or> k = 8 \<or> k = 9"
    by arith
  then show "isDigit (digitChar k)" and "digitValue (digitChar k) = int k"
    and "digitChar k \<noteq> CHR '':''"
    by (auto simp: digitChar_def isDigit_def digitValue_def)
qed

lemma pad2_showNat:
  assumes "n < 100"
  shows "padStart 2 CHR ''0'' (showNat n) = [digitChar (n div 10), digitChar (n mod 10)]"
proof (cases "n < 10")
  case True
  then show ?thesis
    by (subst showNat.simps) (simp add: padStart_def digitChar_def)
next
  case False
  with assms have "n div 10 < 10" by simp
  with False show ?thesis
    by (subst showNat.simps, subst showNat.simps) (simp add: padStart_def digitChar_def)
qed

lemma hoursMinutes_two_digits:
  assumes "h < 100" and "m < 100"
  shows "hoursMinutes (padStart 2 CHR ''0'' (showNat h) @ '':'' @ padStart 2 CHR ''0'' (showNat m)) =
           (Some (int h), Some (int m))"
proof -
  have h: "h div 10 < 10" "h mod 10 < 10" and m: "m div 10 < 10" "m mod 10 < 10"
    using assms by simp_all
  have split10: "10 * int (k div 10) + int (k mod 10) = int k" for k :: nat
    by (simp add: zdiv_int zmod_int)
  show ?thesis
    unfolding pad2_showNat [OF assms(1)] pad2_showNat [OF assms(2)]
    using digitChar_props [OF h(1)] digitChar_props [OF h(2)]
          digitChar_props [OF m(1)] digitChar_props [OF m(2)]
    by (simp add: hoursMinutes_def Number_def split10)
qed

lemma hoursMinutes_timeStr:
  "hoursMinutes (timeStr tz t) = (Some (int (getHours tz t)), Some (int (getMinutes tz t)))"
proof -
  have "getHours tz t < 100" "getMinutes tz t < 100"
    by (simp_all add: getHours_def getMinutes_def nat_less_iff)
  then show ?thesis
    unfolding timeStr_def by (rule hoursMinutes_two_digits)
qed

lemma digitValue_nonneg: "isDigit c \<Longrightarrow> 0 \<le> digitValue c"
  by (auto simp: isDigit_def digitValue_def)

lemma foldl_digits_nonneg:
  "list_all isDigit s \<Longrightarrow> 0 \<le> a \<Longrightarrow> 0 \<le> foldl (\<lambda>a c. 10 * a + digitValue c) a s"
proof (induction s arbitrary: a)
  case Nil
  then show ?case by simp
next
  case (Cons c s)
  from Cons.prems have "0 \<le> 10 * a + digitValue c"
    using digitValue_nonneg [of c] by simp
  with Cons.prems show ?case by (simp add: Cons.IH)
qed

lemma Number_nonneg: "Number s = Some n \<Longrightarrow> 0 \<le> n"
  using foldl_digits_nonneg [of s 0] by (auto simp: Number_def split: if_splits)

lemma hoursMinutes_nonneg:
  assumes "hoursMinutes s = (Some h, Some m)"
  shows "0 \<le> h" and "0 \<le> m"
proof -
  from assms obtain x y zs where xs: "map Number (splitStr CHR '':'' s) = x # y # zs"
    and "x = Some h" "y = Some m"
    by (auto simp: hoursMinutes_def split: list.splits)
  then obtain a b cs where "splitStr CHR '':'' s = a # b # cs" "Number a = Some h"
    "Number b = Some m"
    by (cases "splitStr CHR '':'' s"; cases "tl (splitStr CHR '':'' s)") auto
  then show "0 \<le> h" and "0 \<le> m"
    using Number_nonneg by blast+
qed

lemma atTime_after_midnight:
  assumes "atTime tz d s = Some t"
  shows "localMidnight tz d \<le> t"
proof -
  from assms obtain h m where hm: "hoursMinutes s = (Some h, Some m)"
    and t: "t = localMidnight tz d + h * msPerHour + m * msPerMinute"
    by (auto simp: atTime_def setHours_def split: prod.splits option.splits)
  from hoursMinutes_nonneg [OF hm] have "0 \<le> h * msPerHour" "0 \<le> m * msPerMinute"
    by (simp_all add: msPerHour_def msPerMinute_def)
  with t show ?thesis by simp
qed

lemma atTime_whole_minute:
  assumes "atTime tz d s = Some t"
  shows "\<exists>q. t = localMidnight tz d + q * msPerMinute"
proof -
  from assms obtain hh mm where "t = localMidnight tz d + hh * msPerHour + mm * msPerMinute"
    by (auto simp: atTime_def setHours_def split: prod.splits option.splits)
  then have "t = localMidnight tz d + (hh * 60 + mm) * msPerMinute"
    by (simp add: msPerHour_def msPerMinute_def algebra_simps)
  then show ?thesis by blast
qed

lemma candidate_whole_minute:
  assumes "atTime tz d s = Some openingTime"
    and "t \<in> set (candidateTimes openingTime closingTime)"
  shows "\<exists>q. t = localMidnight tz d + q * msPerMinute"
proof -
  from atTime_whole_minute [OF assms(1)] obtain q where
    q: "openingTime = localMidnight tz d + q * msPerMinute" by blast
  from assms(2) obtain k :: nat where "t = openingTime + int k * 900000"
    unfolding candidateTimes_mem by blast
  with q have "t = localMidnight tz d + (q + int k * 15) * msPerMinute"
    by (simp add: msPerMinute_def algebra_simps)
  then show ?thesis by blast
qed

lemma atTime_timeStr:
  assumes "0 \<le> q" and "q < 1440"
  shows "atTime tz d (timeStr tz (localMidnight tz d + q * msPerMinute)) =
           Some (localMidnight tz d + q * msPerMinute)"
proof -
  have h: "(q * msPerMinute) div msPerHour = q div 60"
  proof -
    have "(q * 60000) div (60 * 60000) = q div (60 :: int)"
      by (rule div_mult_mult2) simp
    then show ?thesis by (simp add: msPerMinute_def msPerHour_def)
  qed
  have m: "(q * msPerMinute) div msPerMinute = q"
    by (simp add: msPerMinute_def)
  have hq: "0 \<le> q div 60" "q div 60 < 24"
    using assms by simp_all
  have gh: "int (getHours 0 (q * msPerMinute)) = q div 60"
    using hq by (simp add: getHours_def h)
  have gm: "int (getMinutes 0 (q * msPerMinute)) = q mod 60"
    by (simp add: getMinutes_def m)
  define a where "a = q div 60"
  define b where "b = q mod 60"
  have qab: "q = 60 * a + b"
    unfolding a_def b_def by simp
  have "a * msPerHour + b * msPerMinute = q * msPerMinute"
    unfolding qab by (simp add: msPerHour_def msPerMinute_def algebra_simps)
  then have sum: "(q div 60) * msPerHour + (q mod 60) * msPerMinute = q * msPerMinute"
    unfolding a_def b_def .
  have "atTime tz d (timeStr tz (localMidnight tz d + q * msPerMinute)) =
          Some (localMidnight tz d + ((q div 60) * msPerHour + (q mod 60) * msPerMinute))"
    by (simp add: atTime_def hoursMinutes_timeStr getHours_local getMinutes_local gh gm
          setHours_def add.assoc)
  then show ?thesis by (simp only: sum)
qed

lemma atTime_timeStr_candidate:
  assumes "atTime tz d s = Some openingTime"
    and "t \<in> set (candidateTimes openingTime closingTime)"
    and "closingTime \<le> localMidnight tz d + msPerDay"
  shows "atTime tz d (timeStr tz t) = Some t"
proof -
  from candidate_whole_minute [OF assms(1,2)] obtain q where
    q: "t = localMidnight tz d + q * msPerMinute" by blast
  from assms(2) have "openingTime \<le> t" "t < closingTime"
    unfolding candidateTimes_mem by auto
  with atTime_after_midnight [OF assms(1)] assms(3) q have "0 \<le> q * msPerMinute" "q * msPerMinute < msPerDay"
    by simp_all
  then have "0 \<le> q" "q < 1440"
    by (simp_all add: msPerMinute_def msPerDay_def zero_le_mult_iff)
  then show ?thesis unfolding q by (rule atTime_timeStr)
qed

section \<open>The claims\<close>

text \<open>
  C1. Every slot of a result belongs to one start time of the loop between the opening
  and the closing time of the effective hours of the date, and its \<open>time\<close> is that start
  time as "HH:MM"; when the closing time is not after the end of the local day of the
  date, the start time is the slot's \<open>time\<close> read back on that day. The slot's \<open>availableTables\<close> is not empty
  and is exactly the eligible tables (capacity at least the party size, and ready) that
  have no conflicting reservation at the occupancy window of that start time, in the
  order of the eligible tables. In particular, for each table of the slot, the slot's
  window is disjoint from the window of every reservation of that table.
\<close>

theorem available_tables_exact:
  assumes "calculateAvailableSlots tz date covers settings reservations tables specialOpeningHours
             = Inr slots"
    and "slot \<in> set slots"
  shows "\<exists>d dateString (hours :: OpeningHours) openingTime closingTime slotStart.
           date = Some d \<and> dateStringOf date = Inr dateString \<and>
           effectiveOpeningHours tz d dateString settings specialOpeningHours = Some hours \<and>
           atTime tz d (open hours) = Some openingTime \<and>
           atTime tz d (close hours) = Some closingTime \<and>
           slots = List.map_filter
                     (slotAt tz d settings reservations (eligibleTables covers tables))
                     (candidateTimes openingTime closingTime) \<and>
           slotStart \<in> set (candidateTimes openingTime closingTime) \<and>
           time slot = timeStr tz slotStart \<and>
           (closingTime \<le> localMidnight tz d + msPerDay
              \<longrightarrow> atTime tz d (time slot) = Some slotStart) \<and>
           availableTables slot \<noteq> [] \<and>
           availableTables slot =
             filter (hasNoConflict tz d settings reservations slotStart)
               (filter (\<lambda>t. capacity t \<ge> covers \<and> isReady t) tables) \<and>
           (\<forall>table\<in>set (availableTables slot). \<forall>r\<in>set reservations.
              tableId r = Some (id_Table table) \<longrightarrow>
              (\<forall>resStart. atTime tz d (time_Reservation r) = Some resStart \<longrightarrow>
                 occupancyWindow settings slotStart \<inter> occupancyWindow settings resStart = {}))"
proof -
  from assms(1) obtain d where d: "date = Some d"
    by (cases date) (simp_all add: calculateAvailableSlots_None)
  obtain dateString where ds: "dateStringOf (Some d) = Inr dateString"
    using dateStringOf_Some by blast
  let ?hours = "effectiveOpeningHours tz d dateString settings specialOpeningHours"
  from calculateAvailableSlots_effective [OF ds] assms(1) d
  have slots: "slots = slotsForHours tz d covers settings reservations tables ?hours"
    by simp
  with assms(2) have "slotsForHours tz d covers settings reservations tables ?hours \<noteq> []"
    by auto
  then obtain h openingTime closingTime where h: "?hours = Some h" "open h \<noteq> []"
    "eligibleTables covers tables \<noteq> []" "atTime tz d (open h) = Some openingTime"
    "atTime tz d (close h) = Some closingTime"
    by (rule slotsForHours_nonempty)
  have enum: "slots = List.map_filter
                (slotAt tz d settings reservations (eligibleTables covers tables))
                (candidateTimes openingTime closingTime)"
    unfolding slots h(1) using h(2,3,4,5) by (rule slotsForHours_Some)
  with assms(2) obtain currentTime where
    cur: "currentTime \<in> set (candidateTimes openingTime closingTime)" and
    at: "slotAt tz d settings reservations (eligibleTables covers tables) currentTime = Some slot"
    by (auto simp: mem_map_filter)
  from at have ne: "availableTablesForSlot tz d settings reservations
                      (eligibleTables covers tables) currentTime \<noteq> []"
    and slot: "slot = \<lparr>time = timeStr tz currentTime,
                   availableTables = availableTablesForSlot tz d settings reservations
                                       (eligibleTables covers tables) currentTime\<rparr>"
    by (auto simp: slotAt_def Let_def split: if_splits)
  have t: "time slot = timeStr tz currentTime" and ne': "availableTables slot \<noteq> []"
    using slot ne by simp_all
  have label: "closingTime \<le> localMidnight tz d + msPerDay
              \<longrightarrow> atTime tz d (time slot) = Some currentTime"
    unfolding t using atTime_timeStr_candidate [OF h(4) cur] by blast
  have eq: "availableTables slot =
             filter (hasNoConflict tz d settings reservations currentTime)
               (filter (\<lambda>t. capacity t \<ge> covers \<and> isReady t) tables)"
    using slot by (simp add: availableTablesForSlot_hasNoConflict eligibleTables_def)
  have "\<forall>table\<in>set (availableTables slot).
          hasNoConflict tz d settings reservations currentTime table"
    unfolding eq by simp
  then have disj: "\<forall>table\<in>set (availableTables slot). \<forall>r\<in>set reservations.
              tableId r = Some (id_Table table) \<longrightarrow>
              (\<forall>resStart. atTime tz d (time_Reservation r) = Some resStart \<longrightarrow>
                 occupancyWindow settings currentTime \<inter> occupancyWindow settings resStart = {})"
    by (fastforce simp: hasNoConflict_def)
  from ds d have ds': "dateStringOf date = Inr dateString" by simp
  from d ds' h(1,4,5) enum cur t label ne' eq disj show ?thesis by blast
qed

theorem available_tables_exact_witness:
  "calculateAvailableSlots 0 (Some monday) 2 settingsA [bookingAt ''19:15''] [table1] [] =
     Inr (map (\<lambda>s. \<lparr>time = s, availableTables = [table1]\<rparr>)
            [''17:00'', ''17:15'', ''17:30'', ''17:45''])
   \<and> (\<exists>d dateString (hours :: OpeningHours) openingTime closingTime slotStart.
          Some monday = Some d \<and> dateStringOf (Some monday) = Inr dateString \<and>
          effectiveOpeningHours 0 d dateString settingsA [] = Some hours \<and>
          atTime 0 d (open hours) = Some openingTime \<and>
          atTime 0 d (close hours) = Some closingTime \<and>
          map (\<lambda>s. \<lparr>time = s, availableTables = [table1]\<rparr>)
            [''17:00'', ''17:15'', ''17:30'', ''17:45''] =
            List.map_filter
              (slotAt 0 d settingsA [bookingAt ''19:15''] (eligibleTables 2 [table1]))
              (candidateTimes openingTime closingTime) \<and>
          slotStart \<in> set (candidateTimes openingTime closingTime) \<and>
          time \<lparr>time = ''17:45'', availableTables = [table1]\<rparr> = timeStr 0 slotStart \<and>
          (closingTime \<le> localMidnight 0 d + msPerDay
             \<longrightarrow> atTime 0 d (time \<lparr>time = ''17:45'', availableTables = [table1]\<rparr>) =
                   Some slotStart) \<and>
          availableTables \<lparr>time = ''17:45'', availableTables = [table1]\<rparr> \<noteq> [] \<and>
          availableTables \<lparr>time = ''17:45'', availableTables = [table1]\<rparr> =
            filter (hasNoConflict 0 d settingsA [bookingAt ''19:15''] slotStart)
              (filter (\<lambda>t. capacity t \<ge> 2 \<and> isReady t) [table1]) \<and>
          (\<forall>table\<in>set (availableTables \<lparr>time = ''17:45'', availableTables = [table1]\<rparr>).
             \<forall>r\<in>set [bookingAt ''19:15'']. tableId r = Some (id_Table table) \<longrightarrow>
               (\<forall>resStart. atTime 0 d (time_Reservation r) = Some resStart \<longrightarrow>
                  occupancyWindow settingsA slotStart \<inter> occupancyWindow settingsA resStart = {})))"
proof -
  have r: "calculateAvailableSlots 0 (Some monday) 2 settingsA [bookingAt ''19:15''] [table1] [] =
     Inr (map (\<lambda>s. \<lparr>time = s, availableTables = [table1]\<rparr>)
            [''17:00'', ''17:15'', ''17:30'', ''17:45''])"
    by code_simp
  have m: "\<lparr>time = ''17:45'', availableTables = [table1]\<rparr> \<in>
             set (map (\<lambda>s. \<lparr>time = s, availableTables = [table1]\<rparr>)
                    [''17:00'', ''17:15'', ''17:30'', ''17:45''])"
    by simp
  from r available_tables_exact [OF r m] show ?thesis by (rule conjI)
qed

text \<open>
  C2. For a reservation with a valid start time, the conflict test of the engine is
  \<open>slotStart < resStart + turnover \<and> slotStart + turnover > resStart\<close>, which holds
  exactly when the two half-open occupancy windows meet; a reservation without a valid
  start time conflicts with nothing. With a turnover of 60 minutes, a reservation at
  "18:00" leaves its table free for a slot at 19:00 and blocks it at 18:30 and at 17:45.
\<close>

theorem conflict_is_half_open_overlap:
  "(atTime tz d (time_Reservation r) = Some resStart \<longrightarrow>
      (overlapsReservation tz d settings slotStart r \<longleftrightarrow>
         slotStart < resStart + turnoverMinutes settings * 60000
         \<and> slotStart + turnoverMinutes settings * 60000 > resStart))
   \<and> (atTime tz d (time_Reservation r) = Some resStart \<longrightarrow>
      (overlapsReservation tz d settings slotStart r \<longleftrightarrow>
         occupancyWindow settings slotStart \<inter> occupancyWindow settings resStart \<noteq> {}))
   \<and> (atTime tz d (time_Reservation r) = None \<longrightarrow>
        \<not> overlapsReservation tz d settings slotStart r)
   \<and> atTime tz d ''19:00'' = Some (localMidnight tz d + 68400000)
   \<and> atTime tz d ''18:30'' = Some (localMidnight tz d + 66600000)
   \<and> atTime tz d ''17:45'' = Some (localMidnight tz d + 63900000)
   \<and> (time_Reservation r = ''18:00'' \<and> turnoverMinutes settings = 60
        \<and> tableId r = Some (id_Table table) \<longrightarrow>
        availableTablesForSlot tz d settings [r] [table] (localMidnight tz d + 68400000) = [table]
        \<and> availableTablesForSlot tz d settings [r] [table] (localMidnight tz d + 66600000) = []
        \<and> availableTablesForSlot tz d settings [r] [table] (localMidnight tz d + 63900000) = [])"
proof -
  have c1: "atTime tz d (time_Reservation r) = Some resStart \<longrightarrow>
      (overlapsReservation tz d settings slotStart r \<longleftrightarrow>
         slotStart < resStart + turnoverMinutes settings * 60000
         \<and> slotStart + turnoverMinutes settings * 60000 > resStart)"
    using overlapsReservation_iff by blast
  have c2: "atTime tz d (time_Reservation r) = Some resStart \<longrightarrow>
      (overlapsReservation tz d settings slotStart r \<longleftrightarrow>
         occupancyWindow settings slotStart \<inter> occupancyWindow settings resStart \<noteq> {})"
    by (simp add: overlap_iff_windows)
  have c3: "atTime tz d (time_Reservation r) = None \<longrightarrow>
        \<not> overlapsReservation tz d settings slotStart r"
    by (simp add: overlapsReservation_def)
  have c4: "time_Reservation r = ''18:00'' \<and> turnoverMinutes settings = 60
        \<and> tableId r = Some (id_Table table) \<longrightarrow>
        availableTablesForSlot tz d settings [r] [table] (localMidnight tz d + 68400000) = [table]
        \<and> availableTablesForSlot tz d settings [r] [table] (localMidnight tz d + 66600000) = []
        \<and> availableTablesForSlot tz d settings [r] [table] (localMidnight tz d + 63900000) = []"
    by (simp add: availableTablesForSlot_single overlapsReservation_def atTime_18_00)
  show ?thesis
    by (intro conjI c1 c2 c3 c4 atTime_19_00 atTime_18_30 atTime_17_45)
qed


theorem conflict_is_half_open_overlap_witness:
  "atTime 0 monday (time_Reservation (bookingAt ''18:00'')) =
     Some (localMidnight 0 monday + 64800000)
   \<and> overlapsReservation 0 monday (settingsA\<lparr>turnoverMinutes := 60\<rparr>)
        (localMidnight 0 monday + 63900000) (bookingAt ''18:00'')
   \<and> availableTablesForSlot 0 monday (settingsA\<lparr>turnoverMinutes := 60\<rparr>)
        [bookingAt ''18:00''] [table1] (localMidnight 0 monday + 68400000) = [table1]
   \<and> availableTablesForSlot 0 monday (settingsA\<lparr>turnoverMinutes := 60\<rparr>)
        [bookingAt ''18:00''] [table1] (localMidnight 0 monday + 66600000) = []
   \<and> availableTablesForSlot 0 monday (settingsA\<lparr>turnoverMinutes := 60\<rparr>)
        [bookingAt ''18:00''] [table1] (localMidnight 0 monday + 63900000) = []"
proof -
  let ?lm = "localMidnight 0 monday"
  let ?s = "settingsA\<lparr>turnoverMinutes := 60\<rparr>"
  have at: "atTime 0 monday (time_Reservation (bookingAt ''18:00'')) = Some (?lm + 64800000)"
    by (simp add: bookingAt_def atTime_18_00)
  note inst = conflict_is_half_open_overlap
    [of 0 monday "bookingAt ''18:00''" "?lm + 64800000" ?s "?lm + 63900000" table1]
  from inst have "atTime 0 monday (time_Reservation (bookingAt ''18:00'')) = Some (?lm + 64800000) \<longrightarrow>
      (overlapsReservation 0 monday ?s (?lm + 63900000) (bookingAt ''18:00'') \<longleftrightarrow>
         ?lm + 63900000 < ?lm + 64800000 + turnoverMinutes ?s * 60000
         \<and> ?lm + 63900000 + turnoverMinutes ?s * 60000 > ?lm + 64800000)"
    by - (elim conjE, assumption)
  with at have ov: "overlapsReservation 0 monday ?s (?lm + 63900000) (bookingAt ''18:00'')"
    by (simp add: settingsA_def)
  from inst have "time_Reservation (bookingAt ''18:00'') = ''18:00'' \<and> turnoverMinutes ?s = 60
        \<and> tableId (bookingAt ''18:00'') = Some (id_Table table1) \<longrightarrow>
        availableTablesForSlot 0 monday ?s [bookingAt ''18:00''] [table1] (?lm + 68400000) = [table1]
        \<and> availableTablesForSlot 0 monday ?s [bookingAt ''18:00''] [table1] (?lm + 66600000) = []
        \<and> availableTablesForSlot 0 monday ?s [bookingAt ''18:00''] [table1] (?lm + 63900000) = []"
    by - (elim conjE, assumption)
  then have "availableTablesForSlot 0 monday ?s [bookingAt ''18:00''] [table1] (?lm + 68400000) = [table1]
        \<and> availableTablesForSlot 0 monday ?s [bookingAt ''18:00''] [table1] (?lm + 66600000) = []
        \<and> availableTablesForSlot 0 monday ?s [bookingAt ''18:00''] [table1] (?lm + 63900000) = []"
    by (simp add: bookingAt_def table1_def settingsA_def)
  with at ov show ?thesis by blast
qed

text \<open>
  C3. The engine looks the special-hours entry up under the UTC calendar date of
  \<open>date\<close> (line 34), while it takes the weekday and the opening times from the local day
  (lines 46 and 63 to 67). For a runtime at UTC+5:30 and the start of Monday 2024-01-15
  there, the date string is "2024-01-14": an entry that closes 2024-01-15 is not found
  and the Monday hours of the settings give eight slots, and an entry that closes
  2024-01-14 closes the Monday.
\<close>

theorem override_lookup_by_utc_date:
  "localMidnight kolkataOffset mondayInKolkata = mondayInKolkata
   \<and> getDayOfWeek kolkataOffset mondayInKolkata = ''monday''
   \<and> dateStringOf (Some (mondayInKolkata + kolkataOffset)) = Inr ''2024-01-15''
   \<and> dateStringOf (Some mondayInKolkata) = Inr ''2024-01-14''
   \<and> calculateAvailableSlots kolkataOffset (Some mondayInKolkata) 2 settingsA [] [table1]
        [\<lparr>date_SpecialOpeningHour = ''2024-01-15'', isOpen = False,
           openTime = None, closeTime = None\<rparr>] =
       Inr [\<lparr>time = ''17:00'', availableTables = [table1]\<rparr>,
            \<lparr>time = ''17:15'', availableTables = [table1]\<rparr>,
            \<lparr>time = ''17:30'', availableTables = [table1]\<rparr>,
            \<lparr>time = ''17:45'', availableTables = [table1]\<rparr>,
            \<lparr>time = ''18:00'', availableTables = [table1]\<rparr>,
            \<lparr>time = ''18:15'', availableTables = [table1]\<rparr>,
            \<lparr>time = ''18:30'', availableTables = [table1]\<rparr>,
            \<lparr>time = ''18:45'', availableTables = [table1]\<rparr>]
   \<and> calculateAvailableSlots kolkataOffset (Some mondayInKolkata) 2 settingsA [] [table1]
        [\<lparr>date_SpecialOpeningHour = ''2024-01-14'', isOpen = False,
           openTime = None, closeTime = None\<rparr>] = Inr []"
proof (intro conjI)
  show "localMidnight kolkataOffset mondayInKolkata = mondayInKolkata"
    by code_simp
  show "getDayOfWeek kolkataOffset mondayInKolkata = ''monday''"
    by code_simp
  show "dateStringOf (Some (mondayInKolkata + kolkataOffset)) = Inr ''2024-01-15''"
    by code_simp
  show "dateStringOf (Some mondayInKolkata) = Inr ''2024-01-14''"
    by code_simp
  show "calculateAvailableSlots kolkataOffset (Some mondayInKolkata) 2 settingsA [] [table1]
        [\<lparr>date_SpecialOpeningHour = ''2024-01-15'', isOpen = False,
           openTime = None, closeTime = None\<rparr>] =
       Inr [\<lparr>time = ''17:00'', availableTables = [table1]\<rparr>,
            \<lparr>time = ''17:15'', availableTables = [table1]\<rparr>,
            \<lparr>time = ''17:30'', availableTables = [table1]\<rparr>,
            \<lparr>time = ''17:45'', availableTables = [table1]\<rparr>,
            \<lparr>time = ''18:00'', availableTables = [table1]\<rparr>,
            \<lparr>time = ''18:15'', availableTables = [table1]\<rparr>,
            \<lparr>time = ''18:30'', availableTables = [table1]\<rparr>,
            \<lparr>time = ''18:45'', availableTables = [table1]\<rparr>]"
    by code_simp
  show "calculateAvailableSlots kolkataOffset (Some mondayInKolkata) 2 settingsA [] [table1]
        [\<lparr>date_SpecialOpeningHour = ''2024-01-14'', isOpen = False,
           openTime = None, closeTime = None\<rparr>] = Inr []"
    by code_simp
qed

theorem override_lookup_by_utc_date_witness:
  "dateStringOf (Some mondayInKolkata) = Inr ''2024-01-14''
   \<and> getDayOfWeek kolkataOffset mondayInKolkata = ''monday''
   \<and> calculateAvailableSlots kolkataOffset (Some mondayInKolkata) 2 settingsA [] [table1]
        [\<lparr>date_SpecialOpeningHour = ''2024-01-14'', isOpen = False,
           openTime = None, closeTime = None\<rparr>] = Inr []"
  using override_lookup_by_utc_date by blast

text \<open>
  C4. After the hours are resolved and an eligible table exists, the result is the loop
  body applied to the start times \<open>candidateTimes\<close>, in their order. These are the
  opening time plus \<open>0, 1, 2, ...\<close> times 15 minutes, exactly those before the closing
  time (never the closing time), in increasing order. From 17:00 to 22:00 they are the
  20 times 17:00, 17:15, ..., 21:45. When the closing time is not after the opening time
  there is no start time, and the result is the empty list, not an error.
\<close>

theorem candidate_slots_enumeration:
  "(open hours \<noteq> [] \<and> eligibleTables covers tables \<noteq> []
      \<and> atTime tz d (open hours) = Some openingTime
      \<and> atTime tz d (close hours) = Some closingTime
    \<longrightarrow> slotsForHours tz d covers settings reservations tables (Some hours) =
          List.map_filter (slotAt tz d settings reservations (eligibleTables covers tables))
            (candidateTimes openingTime closingTime))
   \<and> candidateTimes openingTime closingTime =
       map (\<lambda>k. openingTime + int k * 900000)
         [0 ..< nat ((closingTime - openingTime + 899999) div 900000)]
   \<and> (\<forall>t. t \<in> set (candidateTimes openingTime closingTime) \<longleftrightarrow>
            (\<exists>k::nat. t = openingTime + int k * 900000) \<and> t < closingTime)
   \<and> closingTime \<notin> set (candidateTimes openingTime closingTime)
   \<and> sorted_wrt (<) (candidateTimes openingTime closingTime)
   \<and> atTime tz d ''17:00'' = Some (localMidnight tz d + 61200000)
   \<and> atTime tz d ''22:00'' = Some (localMidnight tz d + 79200000)
   \<and> map (timeStr tz)
        (candidateTimes (localMidnight tz d + 61200000) (localMidnight tz d + 79200000)) =
       [''17:00'', ''17:15'', ''17:30'', ''17:45'', ''18:00'', ''18:15'', ''18:30'', ''18:45'',
        ''19:00'', ''19:15'', ''19:30'', ''19:45'', ''20:00'', ''20:15'', ''20:30'', ''20:45'',
        ''21:00'', ''21:15'', ''21:30'', ''21:45'']
   \<and> (closingTime \<le> openingTime \<longrightarrow> candidateTimes openingTime closingTime = [])
   \<and> (closingTime \<le> openingTime
        \<and> atTime tz d (open hours) = Some openingTime
        \<and> atTime tz d (close hours) = Some closingTime
      \<longrightarrow> slotsForHours tz d covers settings reservations tables (Some hours) = [])
   \<and> (closingTime \<le> openingTime
        \<and> atTime tz d (open hours) = Some openingTime
        \<and> atTime tz d (close hours) = Some closingTime
        \<and> dateStringOf (Some d) = Inr dateString
        \<and> find (\<lambda>h. date_SpecialOpeningHour h = dateString) specialOpeningHours = None
        \<and> openingHours settings (getDayOfWeek tz d) = Some hours
      \<longrightarrow> calculateAvailableSlots tz (Some d) covers settings reservations tables
            specialOpeningHours = Inr [])"
proof -
  have empty: "slotsForHours tz d covers settings reservations tables (Some hours) = []"
    if "closingTime \<le> openingTime" "atTime tz d (open hours) = Some openingTime"
      "atTime tz d (close hours) = Some closingTime"
    using that
    by (simp add: slotsForHours_def slotLoop_acc candidateTimes_empty List.map_filter_simps)
  have notin: "closingTime \<notin> set (candidateTimes openingTime closingTime)"
    by (simp add: candidateTimes_mem)
  have result: "calculateAvailableSlots tz (Some d) covers settings reservations tables
            specialOpeningHours = Inr []"
    if "closingTime \<le> openingTime" "atTime tz d (open hours) = Some openingTime"
      "atTime tz d (close hours) = Some closingTime" "dateStringOf (Some d) = Inr dateString"
      "find (\<lambda>h. date_SpecialOpeningHour h = dateString) specialOpeningHours = None"
      "openingHours settings (getDayOfWeek tz d) = Some hours"
    using calculateAvailableSlots_default [OF that(4,5)] empty [OF that(1,2,3)] that(6)
    by simp
  have c1: "open hours \<noteq> [] \<and> eligibleTables covers tables \<noteq> []
      \<and> atTime tz d (open hours) = Some openingTime
      \<and> atTime tz d (close hours) = Some closingTime
    \<longrightarrow> slotsForHours tz d covers settings reservations tables (Some hours) =
          List.map_filter (slotAt tz d settings reservations (eligibleTables covers tables))
            (candidateTimes openingTime closingTime)"
    using slotsForHours_Some by blast
  have c3: "\<forall>t. t \<in> set (candidateTimes openingTime closingTime) \<longleftrightarrow>
            (\<exists>k::nat. t = openingTime + int k * 900000) \<and> t < closingTime"
    using candidateTimes_mem by blast
  have c9: "closingTime \<le> openingTime \<longrightarrow> candidateTimes openingTime closingTime = []"
    using candidateTimes_empty by blast
  have c10: "closingTime \<le> openingTime
        \<and> atTime tz d (open hours) = Some openingTime
        \<and> atTime tz d (close hours) = Some closingTime
      \<longrightarrow> slotsForHours tz d covers settings reservations tables (Some hours) = []"
    using empty by blast
  have c11: "closingTime \<le> openingTime
        \<and> atTime tz d (open hours) = Some openingTime
        \<and> atTime tz d (close hours) = Some closingTime
        \<and> dateStringOf (Some d) = Inr dateString
        \<and> find (\<lambda>h. date_SpecialOpeningHour h = dateString) specialOpeningHours = None
        \<and> openingHours settings (getDayOfWeek tz d) = Some hours
      \<longrightarrow> calculateAvailableSlots tz (Some d) covers settings reservations tables
            specialOpeningHours = Inr []"
    using result by blast
  show ?thesis
    by (intro conjI c1 candidateTimes_closed_form c3 notin candidateTimes_sorted
          atTime_17_00 atTime_22_00 candidates_17_to_22 c9 c10 c11)
qed

theorem candidate_slots_enumeration_witness:
  "slotsForHours 0 monday 2 settingsA [] [table1] (Some \<lparr>open = ''17:00'', close = ''19:00''\<rparr>) =
     List.map_filter (slotAt 0 monday settingsA [] (eligibleTables 2 [table1]))
       (candidateTimes (localMidnight 0 monday + 61200000) (localMidnight 0 monday + 68400000))
   \<and> calculateAvailableSlots 0 (Some monday) 2
        (settingsA\<lparr>openingHours := [''monday'' \<mapsto> \<lparr>open = ''19:00'', close = ''17:00''\<rparr>]\<rparr>)
        [] [table1] [] = Inr []"
proof -
  let ?lm = "localMidnight 0 monday"
  let ?rev = "settingsA\<lparr>openingHours := [''monday'' \<mapsto> \<lparr>open = ''19:00'', close = ''17:00''\<rparr>]\<rparr>"
  have el: "eligibleTables 2 [table1] \<noteq> []"
    by (simp add: eligibleTables_def table1_def)
  from candidate_slots_enumeration
         [of "\<lparr>open = ''17:00'', close = ''19:00''\<rparr>" 2 "[table1]" 0 monday
             "?lm + 61200000" "?lm + 68400000" settingsA "[]" "''2024-01-15''" "[]"]
  have "open \<lparr>open = ''17:00'', close = ''19:00''\<rparr> \<noteq> [] \<and> eligibleTables 2 [table1] \<noteq> []
      \<and> atTime 0 monday (open \<lparr>open = ''17:00'', close = ''19:00''\<rparr>) = Some (?lm + 61200000)
      \<and> atTime 0 monday (close \<lparr>open = ''17:00'', close = ''19:00''\<rparr>) = Some (?lm + 68400000)
    \<longrightarrow> slotsForHours 0 monday 2 settingsA [] [table1]
          (Some \<lparr>open = ''17:00'', close = ''19:00''\<rparr>) =
          List.map_filter (slotAt 0 monday settingsA [] (eligibleTables 2 [table1]))
            (candidateTimes (?lm + 61200000) (?lm + 68400000))"
    by - (elim conjE, assumption)
  then have a: "slotsForHours 0 monday 2 settingsA [] [table1]
          (Some \<lparr>open = ''17:00'', close = ''19:00''\<rparr>) =
          List.map_filter (slotAt 0 monday settingsA [] (eligibleTables 2 [table1]))
            (candidateTimes (?lm + 61200000) (?lm + 68400000))"
    using el by (simp add: atTime_17_00 atTime_19_00)
  have ds: "dateStringOf (Some monday) = Inr ''2024-01-15''"
    by code_simp
  have wd: "getDayOfWeek 0 monday = ''monday''"
    by code_simp
  from candidate_slots_enumeration
         [of "\<lparr>open = ''19:00'', close = ''17:00''\<rparr>" 2 "[table1]" 0 monday
             "?lm + 68400000" "?lm + 61200000" ?rev "[]" "''2024-01-15''" "[]"]
  have "?lm + 61200000 \<le> ?lm + 68400000
        \<and> atTime 0 monday (open \<lparr>open = ''19:00'', close = ''17:00''\<rparr>) = Some (?lm + 68400000)
        \<and> atTime 0 monday (close \<lparr>open = ''19:00'', close = ''17:00''\<rparr>) = Some (?lm + 61200000)
        \<and> dateStringOf (Some monday) = Inr ''2024-01-15''
        \<and> find (\<lambda>h. date_SpecialOpeningHour h = ''2024-01-15'') ([] :: SpecialOpeningHour list) = None
        \<and> openingHours ?rev (getDayOfWeek 0 monday) = Some \<lparr>open = ''19:00'', close = ''17:00''\<rparr>
      \<longrightarrow> calculateAvailableSlots 0 (Some monday) 2 ?rev [] [table1] [] = Inr []"
    by - (elim conjE, assumption)
  then have b: "calculateAvailableSlots 0 (Some monday) 2 ?rev [] [table1] [] = Inr []"
    using ds wd by (simp add: atTime_17_00 atTime_19_00)
  from a b show ?thesis by (rule conjI)
qed

text \<open>
  C5. Every table offered in a slot is one of the supplied tables, seats the party and is
  ready; a table that is not ready is in no slot; and when the party is larger than
  every table, the result is empty.
\<close>

theorem only_eligible_tables_offered:
  assumes "calculateAvailableSlots tz date covers settings reservations tables specialOpeningHours
             = Inr slots"
  shows "(\<forall>slot\<in>set slots. \<forall>t\<in>set (availableTables slot).
            t \<in> set tables \<and> capacity t \<ge> covers \<and> isReady t)
       \<and> (\<forall>t. \<not> isReady t \<longrightarrow> (\<forall>slot\<in>set slots. t \<notin> set (availableTables slot)))
       \<and> ((\<forall>t\<in>set tables. capacity t < covers) \<longrightarrow> slots = [])"
proof -
  have a: "\<forall>slot\<in>set slots. \<forall>t\<in>set (availableTables slot).
            t \<in> set tables \<and> capacity t \<ge> covers \<and> isReady t"
  proof (intro ballI)
    fix slot t assume "slot \<in> set slots" and t: "t \<in> set (availableTables slot)"
    from slot_in_result [OF assms this(1)] obtain d currentTime where
      "slot = \<lparr>time = timeStr tz currentTime,
               availableTables = availableTablesForSlot tz d settings reservations
                                   (eligibleTables covers tables) currentTime\<rparr>"
      by blast
    with t have "t \<in> set (eligibleTables covers tables)"
      using availableTablesForSlot_subset by fastforce
    then show "t \<in> set tables \<and> capacity t \<ge> covers \<and> isReady t"
      by (simp add: eligibleTables_def)
  qed
  have c: "slots = []" if none: "\<forall>t\<in>set tables. capacity t < covers"
  proof (rule ccontr)
    assume "slots \<noteq> []"
    then obtain slot where slot: "slot \<in> set slots" by (cases slots) auto
    from slot_in_result [OF assms slot] obtain t where "t \<in> set (availableTables slot)"
      by (metis TimeSlot.select_convs(2) last_in_set)
    with a slot none show False by fastforce
  qed
  from a c show ?thesis by blast
qed


theorem only_eligible_tables_offered_witness:
  "calculateAvailableSlots 0 (Some monday) 2 settingsA []
     [table1\<lparr>id_Table := ''t2'', isReady := False\<rparr>, table1] [] =
     Inr (map (\<lambda>s. \<lparr>time = s, availableTables = [table1]\<rparr>)
            [''17:00'', ''17:15'', ''17:30'', ''17:45'', ''18:00'', ''18:15'', ''18:30'', ''18:45''])
   \<and> table1\<lparr>id_Table := ''t2'', isReady := False\<rparr>
         \<notin> set (availableTables \<lparr>time = ''17:00'', availableTables = [table1]\<rparr>)
   \<and> capacity table1 \<ge> 2 \<and> isReady table1
   \<and> calculateAvailableSlots 0 (Some monday) 5 settingsA []
         [table1\<lparr>id_Table := ''t2'', isReady := False\<rparr>, table1] [] = Inr []"
proof -
  let ?tables = "[table1\<lparr>id_Table := ''t2'', isReady := False\<rparr>, table1]"
  let ?slots = "map (\<lambda>s. \<lparr>time = s, availableTables = [table1]\<rparr>)
            [''17:00'', ''17:15'', ''17:30'', ''17:45'', ''18:00'', ''18:15'', ''18:30'', ''18:45'']"
  have r: "calculateAvailableSlots 0 (Some monday) 2 settingsA [] ?tables [] = Inr ?slots"
    by code_simp
  have m: "\<lparr>time = ''17:00'', availableTables = [table1]\<rparr> \<in> set ?slots"
    by simp
  have nr: "\<not> isReady (table1\<lparr>id_Table := ''t2'', isReady := False\<rparr>)"
    by simp
  have t: "table1 \<in> set (availableTables \<lparr>time = ''17:00'', availableTables = [table1]\<rparr>)"
    by simp
  obtain slots where r5: "calculateAvailableSlots 0 (Some monday) 5 settingsA [] ?tables [] =
      Inr slots"
    using calculateAvailableSlots_hours by blast
  have small: "\<forall>t\<in>set ?tables. capacity t < 5"
    by (simp add: table1_def)
  from only_eligible_tables_offered [OF r5] small have "slots = []" by blast
  with r5 r m nr t only_eligible_tables_offered [OF r] show ?thesis by blast
qed

text \<open>
  C6. Scenario A as the code runs it: with a turnover of 90 minutes, Monday hours from
  "17:00" to "19:00", one ready table of capacity 4, no reservation, a date that is a
  Monday without a special-hours entry, and a party of 2, the result is the 8 slots at
  17:00, 17:15, ..., 18:45, each listing that table. (The closing time 19:00 is not a
  start time, so there is no ninth slot.)
\<close>

theorem scenario_A_eight_slots:
  assumes "getDayOfWeek tz d = ''monday''"
    and "dateStringOf (Some d) = Inr dateString"
    and "find (\<lambda>h. date_SpecialOpeningHour h = dateString) specialOpeningHours = None"
    and "turnoverMinutes settings = 90"
    and "openingHours settings ''monday'' = Some \<lparr>open = ''17:00'', close = ''19:00''\<rparr>"
    and "capacity table = 4" and "isReady table"
  shows "calculateAvailableSlots tz (Some d) 2 settings [] [table] specialOpeningHours =
           Inr (map (\<lambda>s. \<lparr>time = s, availableTables = [table]\<rparr>)
                  [''17:00'', ''17:15'', ''17:30'', ''17:45'',
                   ''18:00'', ''18:15'', ''18:30'', ''18:45''])"
proof -
  have "slotsForHours tz d 2 settings [] [table] (Some \<lparr>open = ''17:00'', close = ''19:00''\<rparr>) =
           map (\<lambda>s. \<lparr>time = s, availableTables = [table]\<rparr>)
             (map (timeStr tz) (candidateTimes (localMidnight tz d + 61200000)
                                  (localMidnight tz d + 68400000)))"
    using assms(6,7) by (intro slots_no_reservations) (simp_all add: atTime_17_00 atTime_19_00)
  with calculateAvailableSlots_default [OF assms(2,3)] assms(1,5) show ?thesis
    by (simp only: candidates_17_to_19)
qed


theorem scenario_A_eight_slots_witness:
  "getDayOfWeek 0 monday = ''monday''
   \<and> dateStringOf (Some monday) = Inr ''2024-01-15''
   \<and> calculateAvailableSlots 0 (Some monday) 2 settingsA [] [table1] [] =
       Inr (map (\<lambda>s. \<lparr>time = s, availableTables = [table1]\<rparr>)
              [''17:00'', ''17:15'', ''17:30'', ''17:45'',
               ''18:00'', ''18:15'', ''18:30'', ''18:45''])"
proof -
  have wd: "getDayOfWeek 0 monday = ''monday''"
    by code_simp
  have ds: "dateStringOf (Some monday) = Inr ''2024-01-15''"
    by code_simp
  have none: "find (\<lambda>h. date_SpecialOpeningHour h = ''2024-01-15'') ([] :: SpecialOpeningHour list) = None"
    by simp
  have t: "turnoverMinutes settingsA = 90"
    by (simp add: settingsA_def)
  have oh: "openingHours settingsA ''monday'' = Some \<lparr>open = ''17:00'', close = ''19:00''\<rparr>"
    by (simp add: settingsA_def)
  have cap: "capacity table1 = 4" and ready: "isReady table1"
    by (simp_all add: table1_def)
  from wd ds scenario_A_eight_slots [OF wd ds none t oh cap ready] show ?thesis
    by blast
qed

theorem scenario_A_nine_slots_counterexample:
  "calculateAvailableSlots 0 (Some monday) 2 settingsA [] [table1] [] =
     Inr [\<lparr>time = ''17:00'', availableTables = [table1]\<rparr>,
          \<lparr>time = ''17:15'', availableTables = [table1]\<rparr>,
          \<lparr>time = ''17:30'', availableTables = [table1]\<rparr>,
          \<lparr>time = ''17:45'', availableTables = [table1]\<rparr>,
          \<lparr>time = ''18:00'', availableTables = [table1]\<rparr>,
          \<lparr>time = ''18:15'', availableTables = [table1]\<rparr>,
          \<lparr>time = ''18:30'', availableTables = [table1]\<rparr>,
          \<lparr>time = ''18:45'', availableTables = [table1]\<rparr>]
   \<and> length [\<lparr>time = ''17:00'', availableTables = [table1]\<rparr>,
          \<lparr>time = ''17:15'', availableTables = [table1]\<rparr>,
          \<lparr>time = ''17:30'', availableTables = [table1]\<rparr>,
          \<lparr>time = ''17:45'', availableTables = [table1]\<rparr>,
          \<lparr>time = ''18:00'', availableTables = [table1]\<rparr>,
          \<lparr>time = ''18:15'', availableTables = [table1]\<rparr>,
          \<lparr>time = ''18:30'', availableTables = [table1]\<rparr>,
          \<lparr>time = ''18:45'', availableTables = [table1]\<rparr>] \<noteq> 9"
proof
  show "calculateAvailableSlots 0 (Some monday) 2 settingsA [] [table1] [] =
     Inr [\<lparr>time = ''17:00'', availableTables = [table1]\<rparr>,
          \<lparr>time = ''17:15'', availableTables = [table1]\<rparr>,
          \<lparr>time = ''17:30'', availableTables = [table1]\<rparr>,
          \<lparr>time = ''17:45'', availableTables = [table1]\<rparr>,
          \<lparr>time = ''18:00'', availableTables = [table1]\<rparr>,
          \<lparr>time = ''18:15'', availableTables = [table1]\<rparr>,
          \<lparr>time = ''18:30'', availableTables = [table1]\<rparr>,
          \<lparr>time = ''18:45'', availableTables = [table1]\<rparr>]"
    by code_simp
qed simp

text \<open>
  C7. Run on any store in which the five arguments refer to a date, the settings and the
  three arrays, the engine returns the value of \<open>calculateAvailableSlots\<close> on what the
  references hold, so the result depends on the values of the inputs alone; the store
  after the call is the store before it followed by new objects, so every object that
  existed before the call, the five inputs among them, is as it was; and a second call
  with the same arguments, on the store the first call left, returns the same result.
\<close>

theorem calculateAvailableSlots_deterministic_and_pure:
  assumes "date < length st" and "st ! date = DateObject v"
    and "settings < length st" and "st ! settings = SettingsObject stg"
    and "reservations < length st" and "st ! reservations = ReservationArray rs"
    and "tables < length st" and "st ! tables = TableArray ts"
    and "specialOpeningHours < length st"
    and "st ! specialOpeningHours = SpecialOpeningHourArray sp"
  shows "fst (calculateAvailableSlots_st tz date covers settings reservations tables
                specialOpeningHours st) =
           calculateAvailableSlots tz v covers stg rs ts sp
       \<and> (\<exists>fresh. snd (calculateAvailableSlots_st tz date covers settings reservations tables
                           specialOpeningHours st) = st @ fresh)
       \<and> snd (calculateAvailableSlots_st tz date covers settings reservations tables
                 specialOpeningHours st) ! date = DateObject v
       \<and> snd (calculateAvailableSlots_st tz date covers settings reservations tables
                 specialOpeningHours st) ! settings = SettingsObject stg
       \<and> snd (calculateAvailableSlots_st tz date covers settings reservations tables
                 specialOpeningHours st) ! reservations = ReservationArray rs
       \<and> snd (calculateAvailableSlots_st tz date covers settings reservations tables
                 specialOpeningHours st) ! tables = TableArray ts
       \<and> snd (calculateAvailableSlots_st tz date covers settings reservations tables
                 specialOpeningHours st) ! specialOpeningHours = SpecialOpeningHourArray sp
       \<and> fst (calculateAvailableSlots_st tz date covers settings reservations tables
                 specialOpeningHours
                 (snd (calculateAvailableSlots_st tz date covers settings reservations tables
                         specialOpeningHours st))) =
           fst (calculateAvailableSlots_st tz date covers settings reservations tables
                  specialOpeningHours st)"
proof -
  let ?st' = "snd (calculateAvailableSlots_st tz date covers settings reservations tables
                     specialOpeningHours st)"
  have s: "settingsAt st settings = Some stg"
    using assms(3,4) by (simp add: settingsAt_def)
  have r: "reservationsAt st reservations = Some rs"
    using assms(5,6) by (simp add: reservationsAt_def)
  have t: "tablesAt st tables = Some ts"
    using assms(7,8) by (simp add: tablesAt_def)
  have h: "specialOpeningHoursAt st specialOpeningHours = Some sp"
    using assms(9,10) by (simp add: specialOpeningHoursAt_def)
  from calculateAvailableSlots_st_spec [OF assms(1,2) s r t h, of tz covers]
  have val: "fst (calculateAvailableSlots_st tz date covers settings reservations tables
                specialOpeningHours st) = calculateAvailableSlots tz v covers stg rs ts sp"
    and pre: "prefix st ?st'"
    by simp_all
  from pre have fresh: "\<exists>fresh. ?st' = st @ fresh"
    by (simp add: prefix_def)
  have kept: "?st' ! k = st ! k" if "k < length st" for k
    using pre that by (rule prefix_nth)
  have len: "length st \<le> length ?st'"
    using pre by (rule prefix_length_le)
  have again: "fst (calculateAvailableSlots_st tz date covers settings reservations tables
                 specialOpeningHours ?st') = calculateAvailableSlots tz v covers stg rs ts sp"
  proof -
    have "fst (calculateAvailableSlots_st tz date covers settings reservations tables
                 specialOpeningHours ?st') = calculateAvailableSlots tz v covers stg rs ts sp
          \<and> prefix ?st' (snd (calculateAvailableSlots_st tz date covers settings reservations
                                 tables specialOpeningHours ?st'))"
    proof (rule calculateAvailableSlots_st_spec)
      show "date < length ?st'"
        using assms(1) len by simp
      show "?st' ! date = DateObject v"
        using kept [OF assms(1)] assms(2) by simp
      show "settingsAt ?st' settings = Some stg"
        using s pre by (rule settingsAt_prefix)
      show "reservationsAt ?st' reservations = Some rs"
        using r pre by (rule reservationsAt_prefix)
      show "tablesAt ?st' tables = Some ts"
        using t pre by (rule tablesAt_prefix)
      show "specialOpeningHoursAt ?st' specialOpeningHours = Some sp"
        using h pre by (rule specialOpeningHoursAt_prefix)
    qed
    then show ?thesis by simp
  qed
  from val fresh kept [OF assms(1)] kept [OF assms(3)] kept [OF assms(5)] kept [OF assms(7)]
       kept [OF assms(9)] assms(2,4,6,8,10) again
  show ?thesis by simp
qed

theorem calculateAvailableSlots_deterministic_and_pure_witness:
  "fst (calculateAvailableSlots_st 0 0 2 1 2 3 4
          [DateObject (Some monday), SettingsObject settingsA,
           ReservationArray [bookingAt ''19:15''], TableArray [table1],
           SpecialOpeningHourArray []]) =
     Inr (map (\<lambda>s. \<lparr>time = s, availableTables = [table1]\<rparr>)
            [''17:00'', ''17:15'', ''17:30'', ''17:45''])
   \<and> (\<exists>fresh. snd (calculateAvailableSlots_st 0 0 2 1 2 3 4
          [DateObject (Some monday), SettingsObject settingsA,
           ReservationArray [bookingAt ''19:15''], TableArray [table1],
           SpecialOpeningHourArray []]) =
         [DateObject (Some monday), SettingsObject settingsA,
          ReservationArray [bookingAt ''19:15''], TableArray [table1],
          SpecialOpeningHourArray []] @ fresh)"
proof -
  let ?st = "[DateObject (Some monday), SettingsObject settingsA,
           ReservationArray [bookingAt ''19:15''], TableArray [table1],
           SpecialOpeningHourArray []]"
  have r: "calculateAvailableSlots 0 (Some monday) 2 settingsA [bookingAt ''19:15''] [table1] [] =
     Inr (map (\<lambda>s. \<lparr>time = s, availableTables = [table1]\<rparr>)
            [''17:00'', ''17:15'', ''17:30'', ''17:45''])"
    by code_simp
  have "fst (calculateAvailableSlots_st 0 0 2 1 2 3 4 ?st) =
          calculateAvailableSlots 0 (Some monday) 2 settingsA [bookingAt ''19:15''] [table1] []
        \<and> (\<exists>fresh. snd (calculateAvailableSlots_st 0 0 2 1 2 3 4 ?st) = ?st @ fresh)"
    using calculateAvailableSlots_deterministic_and_pure
            [of 0 ?st "Some monday" 1 settingsA 2 "[bookingAt ''19:15'']" 3 "[table1]" 4 "[]" 0 2]
    by simp
  with r show ?thesis by simp
qed

text \<open>
  C8. The start times are the opening time plus multiples of 15 minutes, whatever the
  opening time is: from "17:10" they begin 17:10, 17:25, 17:40, and with Monday hours
  from "17:10" to "18:00", a free table and no special-hours entry, the slots are those
  at 17:10, 17:25, 17:40 and 17:55.
\<close>

theorem slots_aligned_to_opening_time:
  "(\<forall>t\<in>set (candidateTimes openingTime closingTime).
       \<exists>k::nat. t = openingTime + int k * (15 * 60000))
   \<and> atTime tz d ''17:10'' = Some (localMidnight tz d + 61800000)
   \<and> (localMidnight tz d + 63600000 < closingTime \<longrightarrow>
        take 3 (map (timeStr tz) (candidateTimes (localMidnight tz d + 61800000) closingTime)) =
          [''17:10'', ''17:25'', ''17:40''])
   \<and> (getDayOfWeek tz d = ''monday''
        \<and> dateStringOf (Some d) = Inr dateString
        \<and> find (\<lambda>h. date_SpecialOpeningHour h = dateString) specialOpeningHours = None
        \<and> openingHours settings ''monday'' = Some \<lparr>open = ''17:10'', close = ''18:00''\<rparr>
        \<and> capacity table \<ge> covers \<and> isReady table
      \<longrightarrow> calculateAvailableSlots tz (Some d) covers settings [] [table] specialOpeningHours =
            Inr (map (\<lambda>s. \<lparr>time = s, availableTables = [table]\<rparr>)
                   [''17:10'', ''17:25'', ''17:40'', ''17:55'']))"
proof -
  have c1: "\<forall>t\<in>set (candidateTimes openingTime closingTime).
       \<exists>k::nat. t = openingTime + int k * (15 * 60000)"
    by (simp add: candidateTimes_mem)
  have c3: "localMidnight tz d + 63600000 < closingTime \<longrightarrow>
        take 3 (map (timeStr tz) (candidateTimes (localMidnight tz d + 61800000) closingTime)) =
          [''17:10'', ''17:25'', ''17:40'']"
  proof
    assume lt: "localMidnight tz d + 63600000 < closingTime"
    then have "candidateTimes (localMidnight tz d + 61800000) closingTime =
        (localMidnight tz d + 61800000) # (localMidnight tz d + 62700000)
          # (localMidnight tz d + 63600000) # candidateTimes (localMidnight tz d + 64500000) closingTime"
      by (simp add: candidateTimes_Cons add.commute)
    then show "take 3 (map (timeStr tz) (candidateTimes (localMidnight tz d + 61800000) closingTime)) =
          [''17:10'', ''17:25'', ''17:40'']"
      by (simp add: timeStr_local) (simp add: print_defs)
  qed
  have c4: "getDayOfWeek tz d = ''monday''
        \<and> dateStringOf (Some d) = Inr dateString
        \<and> find (\<lambda>h. date_SpecialOpeningHour h = dateString) specialOpeningHours = None
        \<and> openingHours settings ''monday'' = Some \<lparr>open = ''17:10'', close = ''18:00''\<rparr>
        \<and> capacity table \<ge> covers \<and> isReady table
      \<longrightarrow> calculateAvailableSlots tz (Some d) covers settings [] [table] specialOpeningHours =
            Inr (map (\<lambda>s. \<lparr>time = s, availableTables = [table]\<rparr>)
                   [''17:10'', ''17:25'', ''17:40'', ''17:55''])"
  proof
    assume a: "getDayOfWeek tz d = ''monday''
        \<and> dateStringOf (Some d) = Inr dateString
        \<and> find (\<lambda>h. date_SpecialOpeningHour h = dateString) specialOpeningHours = None
        \<and> openingHours settings ''monday'' = Some \<lparr>open = ''17:10'', close = ''18:00''\<rparr>
        \<and> capacity table \<ge> covers \<and> isReady table"
    then have "slotsForHours tz d covers settings [] [table]
                 (Some \<lparr>open = ''17:10'', close = ''18:00''\<rparr>) =
           map (\<lambda>s. \<lparr>time = s, availableTables = [table]\<rparr>)
             (map (timeStr tz) (candidateTimes (localMidnight tz d + 61800000)
                                  (localMidnight tz d + 64800000)))"
      by (intro slots_no_reservations) (simp_all add: atTime_17_10 atTime_18_00)
    moreover from a have "calculateAvailableSlots tz (Some d) covers settings [] [table]
        specialOpeningHours =
        Inr (slotsForHours tz d covers settings [] [table] (openingHours settings ''monday''))"
      using calculateAvailableSlots_default [of d dateString specialOpeningHours tz covers settings "[]" "[table]"]
      by simp
    ultimately show "calculateAvailableSlots tz (Some d) covers settings [] [table]
        specialOpeningHours =
            Inr (map (\<lambda>s. \<lparr>time = s, availableTables = [table]\<rparr>)
                   [''17:10'', ''17:25'', ''17:40'', ''17:55''])"
      using a by (simp only: candidates_17_10_to_18)
  qed
  show ?thesis by (intro conjI c1 c3 c4 atTime_17_10)
qed

theorem slots_aligned_to_opening_time_witness:
  "calculateAvailableSlots 0 (Some monday) 2
     (settingsA\<lparr>openingHours := [''monday'' \<mapsto> \<lparr>open = ''17:10'', close = ''18:00''\<rparr>]\<rparr>)
     [] [table1] [] =
     Inr (map (\<lambda>s. \<lparr>time = s, availableTables = [table1]\<rparr>)
            [''17:10'', ''17:25'', ''17:40'', ''17:55''])"
proof -
  let ?s = "settingsA\<lparr>openingHours := [''monday'' \<mapsto> \<lparr>open = ''17:10'', close = ''18:00''\<rparr>]\<rparr>"
  have wd: "getDayOfWeek 0 monday = ''monday''"
    by code_simp
  have ds: "dateStringOf (Some monday) = Inr ''2024-01-15''"
    by code_simp
  have rest: "find (\<lambda>h. date_SpecialOpeningHour h = ''2024-01-15'') ([] :: SpecialOpeningHour list) = None
        \<and> openingHours ?s ''monday'' = Some \<lparr>open = ''17:10'', close = ''18:00''\<rparr>
        \<and> capacity table1 \<ge> 2 \<and> isReady table1"
    by (simp add: table1_def)
  from slots_aligned_to_opening_time
         [where tz = 0 and d = monday and dateString = "''2024-01-15''"
            and specialOpeningHours = "[]" and settings = ?s and table = table1 and covers = 2
            and openingTime = 0 and closingTime = 0]
  have "getDayOfWeek 0 monday = ''monday''
        \<and> dateStringOf (Some monday) = Inr ''2024-01-15''
        \<and> find (\<lambda>h. date_SpecialOpeningHour h = ''2024-01-15'') ([] :: SpecialOpeningHour list) = None
        \<and> openingHours ?s ''monday'' = Some \<lparr>open = ''17:10'', close = ''18:00''\<rparr>
        \<and> capacity table1 \<ge> 2 \<and> isReady table1
      \<longrightarrow> calculateAvailableSlots 0 (Some monday) 2 ?s [] [table1] [] =
            Inr (map (\<lambda>s. \<lparr>time = s, availableTables = [table1]\<rparr>)
                   [''17:10'', ''17:25'', ''17:40'', ''17:55''])"
    by - (elim conjE, assumption)
  with wd ds rest show ?thesis by blast
qed

text \<open>
  C9. When several special-hours entries carry the date, the first one in the order of the
  list decides: the result is the one for that entry alone, whatever follows it (and
  whatever entries for other dates precede it).
\<close>

theorem first_matching_override_wins:
  assumes "dateStringOf date = Inr dateString"
    and "\<forall>h\<in>set earlier. date_SpecialOpeningHour h \<noteq> dateString"
    and "date_SpecialOpeningHour specialHour = dateString"
  shows "calculateAvailableSlots tz date covers settings reservations tables
           (earlier @ specialHour # later) =
         calculateAvailableSlots tz date covers settings reservations tables [specialHour]"
proof -
  have "find (\<lambda>h. date_SpecialOpeningHour h = dateString) (earlier @ specialHour # later) =
          Some specialHour"
    using assms(2,3) by (intro find_first_match) simp_all
  moreover have "find (\<lambda>h. date_SpecialOpeningHour h = dateString) [specialHour] = Some specialHour"
    using assms(3) by simp
  ultimately show ?thesis
    using assms(1) by (cases date) (simp_all add: calculateAvailableSlots_def)
qed

theorem first_matching_override_wins_witness:
  "dateStringOf (Some monday) = Inr ''2024-01-15''
   \<and> calculateAvailableSlots 0 (Some monday) 2 settingsA [] [table1]
        ([\<lparr>date_SpecialOpeningHour = ''2024-01-16'', isOpen = True,
            openTime = Some ''12:00'', closeTime = Some ''13:00''\<rparr>]
         @ \<lparr>date_SpecialOpeningHour = ''2024-01-15'', isOpen = False,
             openTime = None, closeTime = None\<rparr>
         # [\<lparr>date_SpecialOpeningHour = ''2024-01-15'', isOpen = True,
              openTime = Some ''12:00'', closeTime = Some ''13:00''\<rparr>])
      = calculateAvailableSlots 0 (Some monday) 2 settingsA [] [table1]
          [\<lparr>date_SpecialOpeningHour = ''2024-01-15'', isOpen = False,
             openTime = None, closeTime = None\<rparr>]
   \<and> calculateAvailableSlots 0 (Some monday) 2 settingsA [] [table1]
          [\<lparr>date_SpecialOpeningHour = ''2024-01-15'', isOpen = False,
             openTime = None, closeTime = None\<rparr>] = Inr []"
proof -
  have ds: "dateStringOf (Some monday) = Inr ''2024-01-15''"
    by code_simp
  have e: "\<forall>h\<in>set [\<lparr>date_SpecialOpeningHour = ''2024-01-16'', isOpen = True,
            openTime = Some ''12:00'', closeTime = Some ''13:00''\<rparr>].
            date_SpecialOpeningHour h \<noteq> ''2024-01-15''"
    by simp
  have m: "date_SpecialOpeningHour \<lparr>date_SpecialOpeningHour = ''2024-01-15'', isOpen = False,
             openTime = None, closeTime = None\<rparr> = ''2024-01-15''"
    by simp
  have c: "calculateAvailableSlots 0 (Some monday) 2 settingsA [] [table1]
          [\<lparr>date_SpecialOpeningHour = ''2024-01-15'', isOpen = False,
             openTime = None, closeTime = None\<rparr>] = Inr []"
    by code_simp
  show ?thesis
    using ds c first_matching_override_wins [OF ds e m, of 0 2 settingsA "[]" "[table1]"]
    by blast
qed

text \<open>
  C10. Availability is antitone in the party size: for \<open>p \<le> p'\<close>, every slot returned for
  \<open>p'\<close> has a slot of the same time in the result for \<open>p\<close>, and that slot offers at least
  the tables offered for \<open>p'\<close>.
\<close>

theorem availability_antitone_in_party_size:
  assumes "p \<le> p'"
    and "calculateAvailableSlots tz date p' settings reservations tables specialOpeningHours
           = Inr slots'"
    and "slot' \<in> set slots'"
  shows "\<exists>slots slot.
           calculateAvailableSlots tz date p settings reservations tables specialOpeningHours
             = Inr slots \<and>
           slot \<in> set slots \<and> time slot = time slot' \<and>
           set (availableTables slot') \<subseteq> set (availableTables slot)"
proof -
  from assms(2) obtain d where d: "date = Some d"
    by (cases date) (simp_all add: calculateAvailableSlots_None)
  from calculateAvailableSlots_hours [of tz d settings specialOpeningHours]
  obtain hours where hours: "\<And>covers.
      calculateAvailableSlots tz date covers settings reservations tables specialOpeningHours =
        Inr (slotsForHours tz d covers settings reservations tables hours)"
    using d by blast
  with assms(2) have s': "slots' = slotsForHours tz d p' settings reservations tables hours"
    by simp
  with assms(3) have "slotsForHours tz d p' settings reservations tables hours \<noteq> []"
    by auto
  then obtain h openingTime closingTime where h: "hours = Some h" "open h \<noteq> []"
    "eligibleTables p' tables \<noteq> []" "atTime tz d (open h) = Some openingTime"
    "atTime tz d (close h) = Some closingTime"
    by (rule slotsForHours_nonempty)
  have sub: "set (eligibleTables p' tables) \<subseteq> set (eligibleTables p tables)"
    using assms(1) by (rule eligibleTables_mono)
  with h(3) have ne: "eligibleTables p tables \<noteq> []" by auto
  have e': "slots' = List.map_filter (slotAt tz d settings reservations (eligibleTables p' tables))
         (candidateTimes openingTime closingTime)"
    unfolding s' h(1) using h(2,3,4,5) by (rule slotsForHours_Some)
  have e: "slotsForHours tz d p settings reservations tables hours =
       List.map_filter (slotAt tz d settings reservations (eligibleTables p tables))
         (candidateTimes openingTime closingTime)"
    unfolding h(1) using h(2) ne h(4,5) by (rule slotsForHours_Some)
  from assms(3) e' obtain currentTime where cur: "currentTime \<in> set (candidateTimes openingTime closingTime)"
    and at: "slotAt tz d settings reservations (eligibleTables p' tables) currentTime = Some slot'"
    by (auto simp: mem_map_filter)
  let ?tabs' = "availableTablesForSlot tz d settings reservations (eligibleTables p' tables) currentTime"
  let ?tabs = "availableTablesForSlot tz d settings reservations (eligibleTables p tables) currentTime"
  from at have slot': "?tabs' \<noteq> []" "slot' = \<lparr>time = timeStr tz currentTime, availableTables = ?tabs'\<rparr>"
    by (auto simp: slotAt_def Let_def split: if_splits)
  have tabs: "set ?tabs' \<subseteq> set ?tabs"
    using sub by (rule availableTablesForSlot_mono)
  with slot'(1) have "?tabs \<noteq> []" by auto
  then have "slotAt tz d settings reservations (eligibleTables p tables) currentTime =
      Some \<lparr>time = timeStr tz currentTime, availableTables = ?tabs\<rparr>"
    by (rule slotAt_Some)
  with cur e have "\<lparr>time = timeStr tz currentTime, availableTables = ?tabs\<rparr> \<in>
      set (slotsForHours tz d p settings reservations tables hours)"
    by (auto simp: mem_map_filter)
  with hours [of p] slot'(2) tabs show ?thesis
    by (intro exI [of _ "slotsForHours tz d p settings reservations tables hours"]
              exI [of _ "\<lparr>time = timeStr tz currentTime, availableTables = ?tabs\<rparr>"]) simp
qed


theorem availability_antitone_in_party_size_witness:
  "(2::int) \<le> 4
   \<and> calculateAvailableSlots 0 (Some monday) 4 settingsA [bookingAt ''19:15'']
        [table1\<lparr>id_Table := ''t2'', capacity := 2\<rparr>, table1] [] =
       Inr (map (\<lambda>s. \<lparr>time = s, availableTables = [table1]\<rparr>)
              [''17:00'', ''17:15'', ''17:30'', ''17:45''])
   \<and> (\<exists>slots slot.
          calculateAvailableSlots 0 (Some monday) 2 settingsA [bookingAt ''19:15'']
            [table1\<lparr>id_Table := ''t2'', capacity := 2\<rparr>, table1] [] = Inr slots \<and>
          slot \<in> set slots \<and>
          time slot = time \<lparr>time = ''17:45'', availableTables = [table1]\<rparr> \<and>
          set (availableTables \<lparr>time = ''17:45'', availableTables = [table1]\<rparr>)
            \<subseteq> set (availableTables slot))"
proof -
  let ?tables = "[table1\<lparr>id_Table := ''t2'', capacity := 2\<rparr>, table1]"
  have le: "(2::int) \<le> 4" by simp
  have r: "calculateAvailableSlots 0 (Some monday) 4 settingsA [bookingAt ''19:15''] ?tables [] =
       Inr (map (\<lambda>s. \<lparr>time = s, availableTables = [table1]\<rparr>)
              [''17:00'', ''17:15'', ''17:30'', ''17:45''])"
    by code_simp
  have m: "\<lparr>time = ''17:45'', availableTables = [table1]\<rparr> \<in>
             set (map (\<lambda>s. \<lparr>time = s, availableTables = [table1]\<rparr>)
                    [''17:00'', ''17:15'', ''17:30'', ''17:45''])"
    by simp
  show ?thesis using le r availability_antitone_in_party_size [OF le r m] by blast
qed

end
